theory Spec2Isabelle
  imports Main "HOL-Library.Sublist"
begin

section \<open>JavaScript values\<close>

text \<open>
  The handlers work on untyped values (\<^verbatim>\<open>any\<close>) obtained from \<^verbatim>\<open>JSON.parse\<close>.
  A value is one of the JSON shapes or \<^verbatim>\<open>undefined\<close>. An object is the list of its
  own properties in the order of enumeration. A number is kept as the text that
  \<^verbatim>\<open>Number.prototype.toString\<close> gives for it (the shortest decimal form that reads
  back as the same number, in exponent form from 10 to the power 21 on): that text
  determines the number up to the sign of zero, whose text is \<^verbatim>\<open>0\<close> for both
  signs, and the handlers only test numbers for truth and strict equality and
  convert them to strings. Strings are lists of code units; a \<open>char\<close> is a code
  unit in U+0000..U+00FF.
\<close>

datatype js =
    Undefined
  | Null
  | Bool bool
  | Num string
  | Str string
  | Arr "js list"
  | Obj "(string \<times> js) list"

datatype exn = TypeError | SyntaxError | RangeError | StoreError

text \<open>Sequencing of computations that may throw: the first exception wins.\<close>

definition then_do :: "exn + 'a \<Rightarrow> ('a \<Rightarrow> exn + 'b) \<Rightarrow> exn + 'b" where
  "then_do m f = (case m of Inl e \<Rightarrow> Inl e | Inr x \<Rightarrow> f x)"

text \<open>\<^verbatim>\<open>!v\<close> is \<open>\<not> truthy v\<close>: undefined, null, false, 0 and the empty string are falsy.\<close>

fun truthy :: "js \<Rightarrow> bool" where
  "truthy Undefined = False"
| "truthy Null = False"
| "truthy (Bool b) = b"
| "truthy (Num n) = (n \<noteq> ''0'')"
| "truthy (Str s) = (s \<noteq> [])"
| "truthy (Arr xs) = True"
| "truthy (Obj kvs) = True"

fun nullish :: "js \<Rightarrow> bool" where
  "nullish Undefined = True"
| "nullish Null = True"
| "nullish v = False"

text \<open>
  \<^verbatim>\<open>v.k\<close> for the property names the handlers read (none of them is a built-in
  property of strings, numbers, booleans or arrays): a TypeError on undefined and
  null, the own property of an object, undefined otherwise.
\<close>

fun get :: "js \<Rightarrow> string \<Rightarrow> exn + js" where
  "get Undefined k = Inl TypeError"
| "get Null k = Inl TypeError"
| "get (Obj kvs) k = Inr (case map_of kvs k of None \<Rightarrow> Undefined | Some v \<Rightarrow> v)"
| "get v k = Inr Undefined"

text \<open>\<^verbatim>\<open>v?.k\<close>: undefined on undefined and null, the property otherwise.\<close>

definition opt_get :: "js \<Rightarrow> string \<Rightarrow> js" where
  "opt_get v k = (case get v k of Inl e \<Rightarrow> Undefined | Inr x \<Rightarrow> x)"

text \<open>
  \<^verbatim>\<open>a === b\<close>. Two arrays or two objects are strictly equal only when they are the
  same reference; the handlers compare values that come from different
  \<^verbatim>\<open>JSON.parse\<close> calls, so such a comparison is false.
\<close>

fun strict_eq :: "js \<Rightarrow> js \<Rightarrow> bool" where
  "strict_eq Undefined Undefined = True"
| "strict_eq Null Null = True"
| "strict_eq (Bool a) (Bool b) = (a = b)"
| "strict_eq (Num a) (Num b) = (a = b)"
| "strict_eq (Str a) (Str b) = (a = b)"
| "strict_eq a b = False"

text \<open>\<^verbatim>\<open>o.k = v\<close> on an object: the property keeps its place when it exists and is
  appended otherwise.\<close>

fun put :: "(string \<times> js) list \<Rightarrow> string \<Rightarrow> js \<Rightarrow> (string \<times> js) list" where
  "put [] k v = [(k, v)]"
| "put ((k', v') # kvs) k v = (if k' = k then (k, v) # kvs else (k', v') # put kvs k v)"

text \<open>
  An assignment \<^verbatim>\<open>t.k = v\<close>: a TypeError when \<open>t\<close> is undefined, null or (the module
  is strict code) a primitive. A named property set on an array is not part of
  its JSON content.
\<close>

fun set_prop :: "js \<Rightarrow> string \<Rightarrow> js \<Rightarrow> exn + js" where
  "set_prop (Obj kvs) k v = Inr (Obj (put kvs k v))"
| "set_prop (Arr xs) k v = Inr (Arr xs)"
| "set_prop t k v = Inl TypeError"

section \<open>Strings\<close>

definition is_space :: "char \<Rightarrow> bool" where
  "is_space c = (let n = (of_char c :: nat) in (9 \<le> n \<and> n \<le> 13) \<or> n = 32 \<or> n = 160)"

definition lower_char :: "char \<Rightarrow> char" where
  "lower_char c =
     (let n = (of_char c :: nat)
      in if (65 \<le> n \<and> n \<le> 90) \<or> (192 \<le> n \<and> n \<le> 222 \<and> n \<noteq> 215)
         then char_of (n + 32) else c)"

definition toLowerCase :: "string \<Rightarrow> string" where
  "toLowerCase s = map lower_char s"

definition trim :: "string \<Rightarrow> string" where
  "trim s = rev (dropWhile is_space (rev (dropWhile is_space s)))"

text \<open>\<^verbatim>\<open>s.replace(/\s+/g, '')\<close>: every run of white space is deleted.\<close>

definition remove_spaces :: "string \<Rightarrow> string" where
  "remove_spaces s = filter (\<lambda>c. \<not> is_space c) s"

text \<open>\<^verbatim>\<open>s.includes(t)\<close> on strings.\<close>

fun str_includes :: "string \<Rightarrow> string \<Rightarrow> bool" where
  "str_includes [] t = (t = [])"
| "str_includes (c # s) t = (prefix t (c # s) \<or> str_includes s t)"

section \<open>Field extraction\<close>

text \<open>
  \<^verbatim>\<open>if (!email || typeof email !== 'string') return '';
  return email.toLowerCase().trim();\<close>
\<close>

fun normalizeEmail :: "js \<Rightarrow> string" where
  "normalizeEmail (Str s) = (if s = [] then [] else trim (toLowerCase s))"
| "normalizeEmail v = []"

text \<open>
  \<^verbatim>\<open>if (!phone || typeof phone !== 'string') return '';
  return phone.replace(/\s+/g, '').trim();\<close>
\<close>

fun normalizePhone :: "js \<Rightarrow> string" where
  "normalizePhone (Str s) = (if s = [] then [] else trim (remove_spaces s))"
| "normalizePhone v = []"

text \<open>
  \<^verbatim>\<open>field?.label?.includes(label)\<close>, read as a condition. A string label is searched
  for the substring, an array label for the element (\<^verbatim>\<open>Array.prototype.includes\<close>);
  a label that is a number, a boolean or an object has no callable
  \<^verbatim>\<open>includes\<close>, and the call throws.
\<close>

definition label_includes :: "js \<Rightarrow> string \<Rightarrow> exn + bool" where
  "label_includes field l =
     (case opt_get field ''label'' of
        Undefined \<Rightarrow> Inr False
      | Null \<Rightarrow> Inr False
      | Str s \<Rightarrow> Inr (str_includes s l)
      | Arr xs \<Rightarrow> Inr (List.member xs (Str l))
      | _ \<Rightarrow> Inl TypeError)"

text \<open>\<^verbatim>\<open>fields.find(field => field?.label?.includes(label))\<close>\<close>

fun find_field :: "js list \<Rightarrow> string \<Rightarrow> exn + js" where
  "find_field [] l = Inr Undefined"
| "find_field (f # fs) l =
     then_do (label_includes f l) (\<lambda>b. if b then Inr f else find_field fs l)"

text \<open>
  \<^verbatim>\<open>if (!fields || !Array.isArray(fields)) return null;
  return fields.find(field => field?.label?.includes(label)) || null;\<close>
\<close>

fun findFieldByLabel :: "js \<Rightarrow> string \<Rightarrow> exn + js" where
  "findFieldByLabel (Arr fs) l =
     then_do (find_field fs l) (\<lambda>r. Inr (if truthy r then r else Null))"
| "findFieldByLabel fields l = Inr Null"

text \<open>The decimal digits of a natural number: \<^verbatim>\<open>`${i}`\<close>.\<close>

fun nat_digits :: "nat \<Rightarrow> string" where
  "nat_digits n =
     (if n < 10 then [char_of (48 + n)]
      else nat_digits (n div 10) @ [char_of (48 + n mod 10)])"

record member_pair =
  email :: string
  phone :: string

text \<open>One round of the loop of \<^verbatim>\<open>extractTeamMemberPairs\<close>, for member number \<open>i\<close>.\<close>

definition team_member :: "js \<Rightarrow> nat \<Rightarrow> exn + member_pair option" where
  "team_member flds i =
     then_do (findFieldByLabel flds (nat_digits i @ '': Email'')) (\<lambda>emailField.
     then_do (findFieldByLabel flds (nat_digits i @ '': Phone number'')) (\<lambda>phoneField.
       if truthy (opt_get emailField ''value'') \<and> truthy (opt_get phoneField ''value'')
       then (let e = normalizeEmail (opt_get emailField ''value'');
                 p = normalizePhone (opt_get phoneField ''value'')
             in if e \<noteq> [] \<and> p \<noteq> [] then Inr (Some \<lparr>email = e, phone = p\<rparr>) else Inr None)
       else Inr None))"

fun team_members :: "js \<Rightarrow> nat list \<Rightarrow> exn + member_pair list" where
  "team_members flds [] = Inr []"
| "team_members flds (i # is) =
     then_do (team_member flds i) (\<lambda>p.
     then_do (team_members flds is) (\<lambda>ps.
       Inr (case p of None \<Rightarrow> ps | Some x \<Rightarrow> x # ps)))"

fun is_array :: "js \<Rightarrow> bool" where
  "is_array (Arr xs) = True"
| "is_array v = False"

text \<open>
  \<^verbatim>\<open>if (!record?.data?.fields || !Array.isArray(record.data.fields)) return pairs;
  for (let i = 1; i <= 9; i++) { ... }\<close>
\<close>

definition extractTeamMemberPairs :: "js \<Rightarrow> exn + member_pair list" where
  "extractTeamMemberPairs record =
     (let flds = opt_get (opt_get record ''data'') ''fields''
      in if \<not> truthy flds \<or> \<not> is_array flds then Inr []
         else team_members flds [1 ..< 10])"

section \<open>Serialisation and string coercion\<close>

definition hex_digit :: "nat \<Rightarrow> char" where
  "hex_digit n = (if n < 10 then char_of (48 + n) else char_of (87 + n))"

text \<open>One code unit inside a JSON string literal, as \<^verbatim>\<open>JSON.stringify\<close> writes it.\<close>

definition quote_char :: "char \<Rightarrow> string" where
  "quote_char c =
     (let n = (of_char c :: nat)
      in if n = 34 then [CHR 0x5C, CHR 0x22]
         else if n = 92 then [CHR 0x5C, CHR 0x5C]
         else if n = 8 then [CHR 0x5C, CHR ''b'']
         else if n = 12 then [CHR 0x5C, CHR ''f'']
         else if n = 10 then [CHR 0x5C, CHR ''n'']
         else if n = 13 then [CHR 0x5C, CHR ''r'']
         else if n = 9 then [CHR 0x5C, CHR ''t'']
         else if n < 32 then [CHR 0x5C, CHR ''u'', CHR ''0'', CHR ''0'',
                              hex_digit (n div 16), hex_digit (n mod 16)]
         else [c])"

definition quote :: "string \<Rightarrow> string" where
  "quote s = CHR 0x22 # concat (map quote_char s) @ [CHR 0x22]"

fun join_comma :: "string list \<Rightarrow> string" where
  "join_comma [] = []"
| "join_comma [s] = s"
| "join_comma (s # t # ss) = s @ '','' @ join_comma (t # ss)"

text \<open>
  \<^verbatim>\<open>JSON.stringify(v)\<close>; \<open>None\<close> is the result \<^verbatim>\<open>undefined\<close>. A property whose value is
  undefined is left out of an object, and an undefined array element is written
  as \<^verbatim>\<open>null\<close>.
\<close>

fun JSON_stringify :: "js \<Rightarrow> string option"
  and stringify_elems :: "js list \<Rightarrow> string list"
  and stringify_members :: "(string \<times> js) list \<Rightarrow> string list" where
  "JSON_stringify Undefined = None"
| "JSON_stringify Null = Some ''null''"
| "JSON_stringify (Bool b) = Some (if b then ''true'' else ''false'')"
| "JSON_stringify (Num n) = Some n"
| "JSON_stringify (Str s) = Some (quote s)"
| "JSON_stringify (Arr xs) = Some (''['' @ join_comma (stringify_elems xs) @ '']'')"
| "JSON_stringify (Obj kvs) = Some (''{'' @ join_comma (stringify_members kvs) @ ''}'')"
| "stringify_elems [] = []"
| "stringify_elems (x # xs) =
     (case JSON_stringify x of None \<Rightarrow> ''null'' | Some s \<Rightarrow> s) # stringify_elems xs"
| "stringify_members [] = []"
| "stringify_members ((k, v) # kvs) =
     (case JSON_stringify v of
        None \<Rightarrow> stringify_members kvs
      | Some s \<Rightarrow> (quote k @ '':'' @ s) # stringify_members kvs)"

text \<open>
  The conversion of a value to a string, as \<^verbatim>\<open>String(v)\<close> and a template literal
  \<^verbatim>\<open>`${v}`\<close> make it. An array is the comma-joined conversion of its elements, with
  undefined and null elements empty. An object without a property of its own
  named \<^verbatim>\<open>toString\<close> is \<^verbatim>\<open>[object Object]\<close>; with one (which is no function, the
  value coming from \<^verbatim>\<open>JSON.parse\<close>) the conversion throws a TypeError.
\<close>

fun js_String :: "js \<Rightarrow> exn + string"
  and String_elems :: "js list \<Rightarrow> exn + string list" where
  "js_String Undefined = Inr ''undefined''"
| "js_String Null = Inr ''null''"
| "js_String (Bool b) = Inr (if b then ''true'' else ''false'')"
| "js_String (Num n) = Inr n"
| "js_String (Str s) = Inr s"
| "js_String (Arr xs) =
     (case String_elems xs of Inl e \<Rightarrow> Inl e | Inr ss \<Rightarrow> Inr (join_comma ss))"
| "js_String (Obj kvs) =
     (if ''toString'' \<in> set (map fst kvs) then Inl TypeError else Inr ''[object Object]'')"
| "String_elems [] = Inr []"
| "String_elems (x # xs) =
     (case (if nullish x then Inr [] else js_String x) of
        Inl e \<Rightarrow> Inl e
      | Inr s \<Rightarrow> (case String_elems xs of Inl e \<Rightarrow> Inl e | Inr ss \<Rightarrow> Inr (s # ss)))"

section \<open>The platform and the list store\<close>

text \<open>
  What the handlers take from the platform: the keyed digest
  \<^verbatim>\<open>createHmac('sha256', SIGNING_SECRET).update(payload).digest('base64')\<close> and
  \<^verbatim>\<open>JSON.parse\<close>, whose result \<open>None\<close> is a thrown SyntaxError.
\<close>

record env =
  hmac_base64 :: "string \<Rightarrow> string"
  JSON_parse :: "string \<Rightarrow> js option"

text \<open>
  \<^verbatim>\<open>timingSafeEqual(a, b)\<close> throws a RangeError when the lengths differ. The source
  compares the UTF-8 bytes of the two strings (\<^verbatim>\<open>Buffer.from\<close>); two strings have
  the same bytes exactly when they are equal, so that \<^verbatim>\<open>isValidSignature\<close> below
  has the same result on the strings themselves.
\<close>

definition timingSafeEqual :: "string \<Rightarrow> string \<Rightarrow> exn + bool" where
  "timingSafeEqual a b = (if length a \<noteq> length b then Inl RangeError else Inr (a = b))"

text \<open>
  \<^verbatim>\<open>try { return timingSafeEqual(Buffer.from(calculatedSignature),
  Buffer.from(receivedSignature)); } catch (err) { return false; }\<close>
\<close>

definition isValidSignature :: "env \<Rightarrow> string \<Rightarrow> string \<Rightarrow> bool" where
  "isValidSignature env payload receivedSignature =
     (let calculatedSignature = hmac_base64 env payload
      in case timingSafeEqual calculatedSignature receivedSignature of
           Inl err \<Rightarrow> False
         | Inr b \<Rightarrow> b)"

text \<open>
  Modelled from the spec: the list-store client \<^verbatim>\<open>@/lib/redis\<close> is not among the
  sources. The spec gives it as a key-value list store with push, full range
  read and removal of one occurrence; the handlers call \<^verbatim>\<open>lpush\<close> (push at the
  head), \<^verbatim>\<open>lrange(key, 0, -1)\<close> and \<^verbatim>\<open>lrem(key, 1, value)\<close> (remove the first
  occurrence from the head). A list holds the items as \<^verbatim>\<open>lrange\<close> returns
  them, head first. Every call fails while the store is unavailable.
\<close>

record store =
  lists :: "string \<Rightarrow> js list"
  up :: bool

definition lrange :: "store \<Rightarrow> string \<Rightarrow> exn + js list" where
  "lrange st key = (if up st then Inr (lists st key) else Inl StoreError)"

definition lpush :: "store \<Rightarrow> string \<Rightarrow> js \<Rightarrow> exn + store" where
  "lpush st key v =
     (if up st then Inr (st\<lparr>lists := (lists st)(key := v # lists st key)\<rparr>)
      else Inl StoreError)"

definition lrem :: "store \<Rightarrow> string \<Rightarrow> js \<Rightarrow> exn + store" where
  "lrem st key v =
     (if up st then Inr (st\<lparr>lists := (lists st)(key := remove1 v (lists st key))\<rparr>)
      else Inl StoreError)"

text \<open>The argument that \<^verbatim>\<open>JSON.stringify(v)\<close> hands to the store.\<close>

definition stringified :: "js \<Rightarrow> js" where
  "stringified v = (case JSON_stringify v of None \<Rightarrow> Undefined | Some s \<Rightarrow> Str s)"

section \<open>Requests and responses\<close>

record request =
  tally_signature :: "string option"
  text_of :: string

text \<open>
  A response body: none, plain text, a JSON value, or the \<^verbatim>\<open>{error: message}\<close> that
  \<^verbatim>\<open>handleError\<close> builds from the message of the exception.
\<close>

datatype body = NoBody | Plain string | JsonBody js | ErrorMessage exn

record response =
  status :: nat
  body :: body

definition handleError :: "exn \<Rightarrow> response" where
  "handleError e = \<lparr>status = 500, body = ErrorMessage e\<rparr>"

definition ok_response :: response where
  "ok_response = \<lparr>status = 200, body = JsonBody (Obj [(''status'', Str ''ok'')])\<rparr>"

text \<open>\<^verbatim>\<open>request.headers.get('tally-signature') || ''\<close>\<close>

definition received_signature :: "request \<Rightarrow> string" where
  "received_signature rq = (case tally_signature rq of None \<Rightarrow> [] | Some s \<Rightarrow> s)"

section \<open>The submission queue\<close>

text \<open>
  The template literal of the log line after the push,
  \<^verbatim>\<open>`... Type: ${json.eventType}, Form: ${json.data.formName}`\<close>: each property
  read and each conversion to a string can throw.
\<close>

definition queued_log_line :: "js \<Rightarrow> exn + unit" where
  "queued_log_line json =
     then_do (get json ''eventType'') (\<lambda>eventType.
     then_do (js_String eventType) (\<lambda>s1.
     then_do (get json ''data'') (\<lambda>d.
     then_do (get d ''formName'') (\<lambda>formName.
     then_do (js_String formName) (\<lambda>s2. Inr ())))))"

text \<open>\<^verbatim>\<open>POST\<close> of the submission route (lines 31-61).\<close>

definition POST_submission :: "env \<Rightarrow> store \<Rightarrow> request \<Rightarrow> response \<times> store" where
  "POST_submission env st rq =
     (let receivedSignature = received_signature rq;
          rawBody = text_of rq
      in if \<not> isValidSignature env rawBody receivedSignature
         then (\<lparr>status = 401, body = Plain ''Invalid signature.''\<rparr>, st)
         else (case JSON_parse env rawBody of
                 None \<Rightarrow> (\<lparr>status = 400, body = Plain ''Invalid JSON''\<rparr>, st)
               | Some json \<Rightarrow>
                   (case lpush st ''enrolment-submissions'' (stringified json) of
                      Inl e \<Rightarrow> (handleError e, st)
                    | Inr st' \<Rightarrow>
                        (case queued_log_line json of
                           Inl e \<Rightarrow> (handleError e, st')
                         | Inr u \<Rightarrow> (ok_response, st')))))"

text \<open>\<^verbatim>\<open>typeof raw === 'string' ? JSON.parse(raw) : raw\<close>\<close>

fun parse_item :: "env \<Rightarrow> js \<Rightarrow> exn + js" where
  "parse_item env (Str s) = (case JSON_parse env s of None \<Rightarrow> Inl SyntaxError | Some v \<Rightarrow> Inr v)"
| "parse_item env raw = Inr raw"

text \<open>
  The body of the \<^verbatim>\<open>try\<close> inside the scan of \<^verbatim>\<open>DELETE\<close>: whether the item is the
  target. An exception is caught and logged, and the item is passed over.
\<close>

definition entry_matches :: "env \<Rightarrow> js \<Rightarrow> js \<Rightarrow> bool" where
  "entry_matches env eventId raw =
     (case then_do (parse_item env raw) (\<lambda>parsed. get parsed ''eventId'') of
        Inl err \<Rightarrow> False
      | Inr v \<Rightarrow> strict_eq v eventId)"

text \<open>The scan from index \<open>i\<close>: \<open>(targetIndex, rawItemToDelete)\<close> at the first match.\<close>

fun scan_items :: "env \<Rightarrow> js \<Rightarrow> js list \<Rightarrow> nat \<Rightarrow> (nat \<times> js) option" where
  "scan_items env eventId [] i = None"
| "scan_items env eventId (raw # rest) i =
     (if entry_matches env eventId raw then Some (i, raw)
      else scan_items env eventId rest (Suc i))"

text \<open>
  \<^verbatim>\<open>DELETE\<close> of the submission route (lines 97-143). The body is read, and the
  first log line \<^verbatim>\<open>`... ${eventId}`\<close> is built, outside the \<^verbatim>\<open>try\<close>: an exception
  there leaves the handler (\<open>Inl\<close>). The later log lines convert the same
  \<^verbatim>\<open>eventId\<close> and numbers, and cannot throw any more.
\<close>

definition DELETE :: "env \<Rightarrow> store \<Rightarrow> request \<Rightarrow> (exn + response) \<times> store" where
  "DELETE env st rq =
     (case JSON_parse env (text_of rq) of
        None \<Rightarrow> (Inl SyntaxError, st)
      | Some b \<Rightarrow>
          (case get b ''eventId'' of
             Inl e \<Rightarrow> (Inl e, st)
           | Inr eventId \<Rightarrow>
               if \<not> truthy eventId
               then (Inr \<lparr>status = 400, body = JsonBody (Obj [(''error'', Str ''Missing eventId'')])\<rparr>, st)
               else (case js_String eventId of
                  Inl e \<Rightarrow> (Inl e, st)
                | Inr logged \<Rightarrow>
                    (let queueKey = ''enrolment-submissions''
                     in case lrange st queueKey of
                          Inl err \<Rightarrow>
                            (Inr \<lparr>status = 500, body = JsonBody (Obj [(''error'', Str ''Delete failed'')])\<rparr>, st)
                        | Inr allItems \<Rightarrow>
                            (case scan_items env eventId allItems 0 of
                               None \<Rightarrow>
                                 (Inr \<lparr>status = 404, body = JsonBody (Obj [(''error'', Str ''Event not found'')])\<rparr>, st)
                             | Some (targetIndex, rawItemToDelete) \<Rightarrow>
                                 if rawItemToDelete = Null
                                 then (Inr \<lparr>status = 404, body = JsonBody (Obj [(''error'', Str ''Event not found'')])\<rparr>, st)
                                 else (case lrem st queueKey (allItems ! targetIndex) of
                                         Inl err \<Rightarrow>
                                           (Inr \<lparr>status = 500, body = JsonBody (Obj [(''error'', Str ''Delete failed'')])\<rparr>, st)
                                       | Inr st' \<Rightarrow>
                                           (Inr \<lparr>status = 200, body = JsonBody (Obj [(''success'', Bool True)])\<rparr>, st')))))))"

section \<open>The team update\<close>

text \<open>
  The body of the \<^verbatim>\<open>try\<close> inside the lookup loop (lines 125-132): the record when
  it is the one looked for. An exception is caught and the loop continues.
\<close>

definition record_if_match :: "env \<Rightarrow> string \<Rightarrow> js \<Rightarrow> exn + js option" where
  "record_if_match env previousSubmissionId raw =
     then_do (parse_item env raw) (\<lambda>rec.
     then_do (get rec ''data'') (\<lambda>d.
       if strict_eq (opt_get d ''submissionId'') (Str previousSubmissionId) \<or>
          strict_eq (opt_get d ''responseId'') (Str previousSubmissionId)
       then Inr (Some rec) else Inr None))"

text \<open>The lookup loop (lines 121-137); \<open>Null\<close> is the initial \<^verbatim>\<open>previousRecord\<close>.\<close>

fun find_previous :: "env \<Rightarrow> string \<Rightarrow> js list \<Rightarrow> js" where
  "find_previous env previousSubmissionId [] = Null"
| "find_previous env previousSubmissionId (raw # rest) =
     (case record_if_match env previousSubmissionId raw of
        Inr (Some rec) \<Rightarrow> rec
      | _ \<Rightarrow> find_previous env previousSubmissionId rest)"

text \<open>\<^verbatim>\<open>fs.findIndex((f: any) => f.label === label)\<close>; \<open>None\<close> is \<open>-1\<close>.\<close>

fun findIndex_label :: "js list \<Rightarrow> js \<Rightarrow> exn + nat option" where
  "findIndex_label [] l = Inr None"
| "findIndex_label (f # fs) l =
     then_do (get f ''label'') (\<lambda>fl.
       if strict_eq fl l then Inr (Some 0)
       else then_do (findIndex_label fs l) (\<lambda>r. Inr (map_option Suc r)))"

text \<open>
  The branch \<^verbatim>\<open>existingFieldIndex >= 0\<close> (lines 179-194) on the existing field \<open>f\<close>.
\<close>

definition override_field :: "js \<Rightarrow> js \<Rightarrow> exn + js" where
  "override_field f updateField =
     then_do (get updateField ''value'') (\<lambda>v.
     then_do (if v \<noteq> Null \<and> v \<noteq> Undefined \<and> v \<noteq> Str [] then set_prop f ''value'' v else Inr f) (\<lambda>f1.
     then_do (get updateField ''key'') (\<lambda>k.
     then_do (set_prop f1 ''key'' k) (\<lambda>f2.
     then_do (get updateField ''type'') (\<lambda>t.
     then_do (if truthy t then set_prop f2 ''type'' t else Inr f2) (\<lambda>f3.
     then_do (get updateField ''options'') (\<lambda>opts.
       if truthy opts then set_prop f3 ''options'' opts else Inr f3)))))))"

text \<open>
  One round of the merge loop (lines 170-200) on the field list of the merged
  record. A pushed update field is shared with the payload, but the loop never
  reads an earlier update field again, so that the sharing cannot be observed.
\<close>

definition merge_field :: "js list \<Rightarrow> js \<Rightarrow> exn + js list" where
  "merge_field fs updateField =
     then_do (get updateField ''label'') (\<lambda>l.
       if \<not> truthy l then Inr fs
       else then_do (findIndex_label fs l) (\<lambda>existingFieldIndex.
              case existingFieldIndex of
                Some i \<Rightarrow> then_do (override_field (fs ! i) updateField) (\<lambda>f'. Inr (fs[i := f']))
              | None \<Rightarrow> Inr (fs @ [updateField])))"

text \<open>
  The same round on the merged record: \<^verbatim>\<open>mergedRecord.data.fields\<close> is read only
  when the update field has a label, and must then be an array.
\<close>

definition merge_step :: "js \<Rightarrow> js \<Rightarrow> exn + js" where
  "merge_step mergedRecord updateField =
     then_do (get updateField ''label'') (\<lambda>l.
       if \<not> truthy l then Inr mergedRecord
       else then_do (get mergedRecord ''data'') (\<lambda>d.
            then_do (get d ''fields'') (\<lambda>fv.
              case fv of
                Arr fs \<Rightarrow>
                  then_do (merge_field fs updateField) (\<lambda>fs'.
                  then_do (set_prop d ''fields'' (Arr fs')) (\<lambda>d'.
                    set_prop mergedRecord ''data'' d'))
              | _ \<Rightarrow> Inl TypeError)))"

fun merge_loop :: "js \<Rightarrow> js list \<Rightarrow> exn + js" where
  "merge_loop mergedRecord [] = Inr mergedRecord"
| "merge_loop mergedRecord (updateField # rest) =
     then_do (merge_step mergedRecord updateField) (\<lambda>m. merge_loop m rest)"

text \<open>\<^verbatim>\<open>a || b\<close>\<close>

definition js_or :: "js \<Rightarrow> js \<Rightarrow> js" where
  "js_or a b = (if truthy a then a else b)"

text \<open>\<^verbatim>\<open>m.data.k = json.data.k\<close>\<close>

definition copy_data_prop :: "js \<Rightarrow> string \<Rightarrow> js \<Rightarrow> exn + js" where
  "copy_data_prop json k m =
     then_do (get m ''data'') (\<lambda>d.
     then_do (get json ''data'') (\<lambda>jd.
     then_do (get jd k) (\<lambda>v.
     then_do (set_prop d k v) (\<lambda>d'. set_prop m ''data'' d'))))"

text \<open>Lines 202-213: the link to the previous record and the new envelope.\<close>

definition set_metadata :: "js \<Rightarrow> js \<Rightarrow> js \<Rightarrow> exn + js" where
  "set_metadata json previousRecord mergedRecord =
     then_do (get previousRecord ''data'') (\<lambda>pd.
     then_do (set_prop mergedRecord ''previous-team-state''
                (js_or (opt_get pd ''submissionId'') (opt_get pd ''responseId''))) (\<lambda>m1.
     then_do (get json ''eventId'') (\<lambda>eventId.
     then_do (set_prop m1 ''eventId'' eventId) (\<lambda>m2.
     then_do (get json ''createdAt'') (\<lambda>createdAt.
     then_do (set_prop m2 ''createdAt'' createdAt) (\<lambda>m3.
     then_do (copy_data_prop json ''responseId'' m3) (\<lambda>m4.
     then_do (copy_data_prop json ''submissionId'' m4) (\<lambda>m5.
     then_do (copy_data_prop json ''respondentId'' m5) (\<lambda>m6.
     then_do (copy_data_prop json ''formId'' m6) (\<lambda>m7.
     then_do (copy_data_prop json ''formName'' m7) (\<lambda>m8.
       copy_data_prop json ''createdAt'' m8)))))))))))"

text \<open>\<^verbatim>\<open>JSON.parse(JSON.stringify(previousRecord))\<close>\<close>

definition deep_copy :: "env \<Rightarrow> js \<Rightarrow> exn + js" where
  "deep_copy env v =
     (case JSON_stringify v of
        None \<Rightarrow> Inl SyntaxError
      | Some s \<Rightarrow> (case JSON_parse env s of None \<Rightarrow> Inl SyntaxError | Some c \<Rightarrow> Inr c))"

text \<open>\<^verbatim>\<open>teamMemberPairs.some(pair => pair.email === e && pair.phone === p)\<close>\<close>

definition isAuthorized :: "member_pair list \<Rightarrow> string \<Rightarrow> string \<Rightarrow> bool" where
  "isAuthorized teamMemberPairs submitterEmail submitterPhone =
     list_ex (\<lambda>pair. email pair = submitterEmail \<and> phone pair = submitterPhone) teamMemberPairs"

definition plain :: "nat \<Rightarrow> string \<Rightarrow> response" where
  "plain code msg = \<lparr>status = code, body = Plain msg\<rparr>"

text \<open>
  A step of a \<^verbatim>\<open>try\<close> block that runs on the store \<open>st\<close>: when it throws, the block
  ends with the exception and that store.
\<close>

definition then_try ::
  "store \<Rightarrow> exn + 'a \<Rightarrow> ('a \<Rightarrow> (exn + response) \<times> store) \<Rightarrow> (exn + response) \<times> store" where
  "then_try st m f = (case m of Inl e \<Rightarrow> (Inl e, st) | Inr x \<Rightarrow> f x)"

text \<open>
  The log line of line 144,
  \<^verbatim>\<open>`... ${previousRecord.data?.submissionId || previousRecord.data?.responseId}`\<close>.
\<close>

definition found_log_line :: "js \<Rightarrow> exn + unit" where
  "found_log_line previousRecord =
     then_do (get previousRecord ''data'') (\<lambda>pd.
     then_do (js_String (js_or (opt_get pd ''submissionId'') (opt_get pd ''responseId''))) (\<lambda>s.
       Inr ()))"

text \<open>
  The log line of line 217, after the push,
  \<^verbatim>\<open>`... ${mergedRecord.data.submissionId}, Previous: ${mergedRecord['previous-team-state']}`\<close>.
\<close>

definition team_queued_log_line :: "js \<Rightarrow> exn + unit" where
  "team_queued_log_line mergedRecord =
     then_do (get mergedRecord ''data'') (\<lambda>d.
     then_do (get d ''submissionId'') (\<lambda>submissionId.
     then_do (js_String submissionId) (\<lambda>s1.
     then_do (get mergedRecord ''previous-team-state'') (\<lambda>previous.
     then_do (js_String previous) (\<lambda>s2. Inr ())))))"

text \<open>Lines 165-213: the merged record, from the copy of the previous one.\<close>

definition merged_record :: "env \<Rightarrow> js \<Rightarrow> js \<Rightarrow> js \<Rightarrow> exn + js" where
  "merged_record env json flds previousRecord =
     then_do (deep_copy env previousRecord) (\<lambda>mergedRecord.
     then_do (merge_loop mergedRecord (case flds of Arr us \<Rightarrow> us | _ \<Rightarrow> [])) (\<lambda>merged.
       set_metadata json previousRecord merged))"

text \<open>Lines 146-219, once the previous record is found and logged.\<close>

definition authorize_and_merge ::
  "env \<Rightarrow> store \<Rightarrow> js \<Rightarrow> js \<Rightarrow> string \<Rightarrow> string \<Rightarrow> js \<Rightarrow> (exn + response) \<times> store" where
  "authorize_and_merge env st json flds submitterEmail submitterPhone previousRecord =
     then_try st (extractTeamMemberPairs previousRecord) (\<lambda>teamMemberPairs.
       if \<not> isAuthorized teamMemberPairs submitterEmail submitterPhone
       then (Inr (plain 403 ''Unauthorized: email-phone pair not found in team members''), st)
       else then_try st (merged_record env json flds previousRecord) (\<lambda>mergedRecord.
            then_try st (lpush st ''enrolment-participants-teams'' (stringified mergedRecord)) (\<lambda>st'.
            then_try st' (team_queued_log_line mergedRecord) (\<lambda>u.
              (Inr ok_response, st')))))"

text \<open>
  The \<^verbatim>\<open>try\<close> block of the handler after the body is parsed (lines 85-219), with
  the store it leaves.
\<close>

definition teams_update_try :: "env \<Rightarrow> store \<Rightarrow> js \<Rightarrow> (exn + response) \<times> store" where
  "teams_update_try env st json =
     then_try st (get json ''data'') (\<lambda>d.
       if \<not> truthy d then (Inr (plain 400 ''Invalid payload structure''), st)
       else then_try st (get d ''fields'') (\<lambda>flds.
         if \<not> truthy flds \<or> \<not> is_array flds
         then (Inr (plain 400 ''Invalid payload structure''), st)
         else
           then_try st (findFieldByLabel flds ''Email of person filling this form'') (\<lambda>submitterEmailField.
           then_try st (findFieldByLabel flds ''Phone number of person filling this form'') (\<lambda>submitterPhoneField.
             if \<not> truthy (opt_get submitterEmailField ''value'') \<or>
                \<not> truthy (opt_get submitterPhoneField ''value'')
             then (Inr (plain 400 ''Missing required fields: email and phone''), st)
             else
               (let submitterEmail = normalizeEmail (opt_get submitterEmailField ''value'');
                    submitterPhone = normalizePhone (opt_get submitterPhoneField ''value'')
                in then_try st (findFieldByLabel flds ''Team ID'') (\<lambda>teamIdField.
                     if \<not> truthy (opt_get teamIdField ''value'')
                     then (Inr (plain 400 ''Missing required field: Team ID''), st)
                     else
                       then_try st (js_String (opt_get teamIdField ''value'')) (\<lambda>previousSubmissionId.
                       then_try st (lrange st ''enrolment-participants-teams'') (\<lambda>rawMessages.
                         (let previousRecord = find_previous env previousSubmissionId rawMessages
                          in if \<not> truthy previousRecord
                             then (Inr (plain 404 ''Previous record not found''), st)
                             else then_try st (found_log_line previousRecord) (\<lambda>u.
                                    authorize_and_merge env st json flds submitterEmail
                                      submitterPhone previousRecord))))))))))"

text \<open>
  \<^verbatim>\<open>POST\<close> of the team update route (lines 63-224): the \<^verbatim>\<open>catch\<close> answers an
  exception of the block with \<^verbatim>\<open>handleError\<close>.
\<close>

definition POST_teams_update :: "env \<Rightarrow> store \<Rightarrow> request \<Rightarrow> response \<times> store" where
  "POST_teams_update env st rq =
     (let receivedSignature = received_signature rq;
          rawBody = text_of rq
      in if \<not> isValidSignature env rawBody receivedSignature
         then (plain 401 ''Invalid signature.'', st)
         else (case JSON_parse env rawBody of
                 None \<Rightarrow> (plain 400 ''Invalid JSON'', st)
               | Some json \<Rightarrow>
                   (case teams_update_try env st json of
                      (Inl e, st') \<Rightarrow> (handleError e, st')
                    | (Inr r, st') \<Rightarrow> (r, st'))))"
section \<open>Notions used to state the properties\<close>

text \<open>The field's label is a string that contains \<open>l\<close> as a contiguous substring.\<close>

definition label_contains :: "string \<Rightarrow> js \<Rightarrow> bool" where
  "label_contains l f = (case opt_get f ''label'' of Str s \<Rightarrow> sublist l s | _ \<Rightarrow> False)"

text \<open>The element's label is a string, or the element has none.\<close>

definition plain_label :: "js \<Rightarrow> bool" where
  "plain_label f =
     (case opt_get f ''label'' of Undefined \<Rightarrow> True | Null \<Rightarrow> True | Str s \<Rightarrow> True | _ \<Rightarrow> False)"

text \<open>\<^verbatim>\<open>record.data.fields\<close>, with optional chaining.\<close>

definition record_fields :: "js \<Rightarrow> js" where
  "record_fields m = opt_get (opt_get m ''data'') ''fields''"

text \<open>
  The properties of an existing field after lines 181-194, when the update field
  can be read.
\<close>

definition overridden :: "(string \<times> js) list \<Rightarrow> js \<Rightarrow> (string \<times> js) list" where
  "overridden kvs u =
     (let v = opt_get u ''value''; t = opt_get u ''type''; opts = opt_get u ''options'';
          kvs1 = (if v \<noteq> Null \<and> v \<noteq> Undefined \<and> v \<noteq> Str [] then put kvs ''value'' v else kvs);
          kvs2 = put kvs1 ''key'' (opt_get u ''key'');
          kvs3 = (if truthy t then put kvs2 ''type'' t else kvs2)
      in if truthy opts then put kvs3 ''options'' opts else kvs3)"

text \<open>The label of a field, and the fields of a list that have a given label.\<close>

definition label_of :: "js \<Rightarrow> js" where
  "label_of f = opt_get f ''label''"

definition has_label :: "js \<Rightarrow> js list \<Rightarrow> bool" where
  "has_label l fs = list_ex (\<lambda>f. strict_eq (label_of f) l) fs"

text \<open>Index \<open>i\<close> is the first field of the list whose label is \<open>l\<close>.\<close>

definition first_with_label :: "js \<Rightarrow> js list \<Rightarrow> nat \<Rightarrow> bool" where
  "first_with_label l fs i =
     (i < length fs \<and> strict_eq (label_of (fs ! i)) l \<and>
      list_all (\<lambda>f. \<not> strict_eq (label_of f) l) (take i fs))"

text \<open>None of the fields is null or undefined.\<close>

definition all_present :: "js list \<Rightarrow> bool" where
  "all_present fs = list_all (\<lambda>f. \<not> nullish f) fs"

text \<open>The value can be converted to a string.\<close>

definition convertible :: "js \<Rightarrow> bool" where
  "convertible v = (case js_String v of Inl e \<Rightarrow> False | Inr s \<Rightarrow> True)"

text \<open>
  What the merge keeps of a field list \<open>fs\<close> in a later list \<open>fs'\<close>: no field is
  lost or moved, and no label changes.
\<close>

definition keeps :: "js list \<Rightarrow> js list \<Rightarrow> bool" where
  "keeps fs fs' = (all_present fs' \<and> length fs \<le> length fs' \<and>
     list_all (\<lambda>p. label_of (fs' ! p) = label_of (fs ! p)) [0 ..< length fs])"

text \<open>
  The identifier that the handler logs and links for a previous record,
  \<^verbatim>\<open>previousRecord.data?.submissionId || previousRecord.data?.responseId\<close>.
\<close>

definition previous_id :: "js \<Rightarrow> js" where
  "previous_id prev =
     js_or (opt_get (opt_get prev ''data'') ''submissionId'')
           (opt_get (opt_get prev ''data'') ''responseId'')"

text \<open>
  The request passes every check of the team update handler up to and including
  the authorisation: the signature verifies, the body parses to \<open>json\<close> with the
  update fields \<open>us\<close>, the three form fields \<open>ef\<close>, \<open>pf\<close> and \<open>tf\<close> are found
  with values, the Team ID converts to the string \<open>pid\<close>, the store answers,
  the lookup finds \<open>prev\<close>, whose identifier can be logged, and the submitter is
  one of its team-member \<open>pairs\<close>.
\<close>

definition authorised_update ::
  "env \<Rightarrow> store \<Rightarrow> request \<Rightarrow> js \<Rightarrow> js list \<Rightarrow> js \<Rightarrow> js \<Rightarrow> js \<Rightarrow> string \<Rightarrow> js \<Rightarrow>
   member_pair list \<Rightarrow> bool" where
  "authorised_update env st rq json us ef pf tf pid prev pairs =
     (isValidSignature env (text_of rq) (received_signature rq) \<and>
      JSON_parse env (text_of rq) = Some json \<and>
      record_fields json = Arr us \<and>
      findFieldByLabel (Arr us) ''Email of person filling this form'' = Inr ef \<and>
      truthy (opt_get ef ''value'') \<and>
      findFieldByLabel (Arr us) ''Phone number of person filling this form'' = Inr pf \<and>
      truthy (opt_get pf ''value'') \<and>
      findFieldByLabel (Arr us) ''Team ID'' = Inr tf \<and>
      truthy (opt_get tf ''value'') \<and>
      js_String (opt_get tf ''value'') = Inr pid \<and>
      up st \<and>
      find_previous env pid (lists st ''enrolment-participants-teams'') = prev \<and>
      truthy prev \<and>
      convertible (previous_id prev) \<and>
      extractTeamMemberPairs prev = Inr pairs \<and>
      \<lparr>email = normalizeEmail (opt_get ef ''value''),
       phone = normalizePhone (opt_get pf ''value'')\<rparr> \<in> set pairs)"

text \<open>
  The answer of the team update handler from line 139 on, once the lookup has
  returned \<open>prev\<close>: the \<^verbatim>\<open>catch\<close> turns an exception into the 500 response.
\<close>

definition after_lookup ::
  "env \<Rightarrow> store \<Rightarrow> js \<Rightarrow> js \<Rightarrow> string \<Rightarrow> string \<Rightarrow> js \<Rightarrow> response \<times> store" where
  "after_lookup env st json flds e p prev =
     (if \<not> truthy prev then (plain 404 ''Previous record not found'', st)
      else (case then_try st (found_log_line prev)
                   (\<lambda>u. authorize_and_merge env st json flds e p prev) of
              (Inl x, st') \<Rightarrow> (handleError x, st')
            | (Inr r, st') \<Rightarrow> (r, st')))"

section \<open>Example data\<close>

definition field :: "string \<Rightarrow> string \<Rightarrow> js \<Rightarrow> js" where
  "field k l v = Obj [(''key'', Str k), (''label'', Str l), (''type'', Str ''INPUT_TEXT''), (''value'', v)]"


text \<open>A stored team registration with two members, and its field list.\<close>

definition prior_fields :: "js list" where
  "prior_fields =
     [field ''q0'' ''Team name'' (Str ''old''),
      field ''q1'' ''1: Email'' (Str ''a@x.com''),
      field ''q2'' ''1: Phone number'' (Str ''111''),
      field ''q3'' ''2: Email'' (Str ''b@y.com''),
      field ''q4'' ''2: Phone number'' (Str ''222'')]"

definition prior_record :: js where
  "prior_record =
     Obj [(''eventId'', Str ''e1''),
          (''createdAt'', Str ''2025-01-01''),
          (''data'', Obj [(''responseId'', Str ''r1''),
                          (''submissionId'', Str ''s1''),
                          (''formName'', Str ''Teams''),
                          (''fields'', Arr prior_fields)])]"

text \<open>An update field with an empty value, and one without a key.\<close>

definition empty_update :: js where
  "empty_update = field ''u4'' ''2: Phone number'' (Str [])"

definition keyless_update :: js where
  "keyless_update = Obj [(''label'', Str ''2: Email''), (''value'', Str ''c@z.com'')]"

definition new_update :: js where
  "new_update = field ''u6'' ''Motto'' (Str ''go'')"

text \<open>
  The update payload of a member of that team: the three fields of the form
  itself, an empty phone number and a new address for the second member, and a
  new field.
\<close>

definition form_fields :: "js list" where
  "form_fields =
     [field ''u1'' ''Email of person filling this form'' (Str ''A@X.COM''),
      field ''u2'' ''Phone number of person filling this form'' (Str '' 111 ''),
      field ''u3'' ''Team ID'' (Str ''s1'')]"

definition update_fields :: "js list" where
  "update_fields = form_fields @ [empty_update, keyless_update, new_update]"

definition update_payload :: js where
  "update_payload =
     Obj [(''eventId'', Str ''e2''),
          (''createdAt'', Str ''2025-02-02''),
          (''data'', Obj [(''responseId'', Str ''r2''),
                          (''submissionId'', Str ''s2''),
                          (''formName'', Str ''Team update''),
                          (''fields'', Arr update_fields)])]"

text \<open>
  An update that has the new label twice, the second time with an empty value,
  and the record that the merge makes of it.
\<close>

definition repeated_update :: js where
  "repeated_update = field ''u7'' ''Motto'' (Str [])"

definition repeat_payload :: js where
  "repeat_payload =
     Obj [(''eventId'', Str ''e6''),
          (''createdAt'', Str ''2025-03-03''),
          (''data'', Obj [(''responseId'', Str ''r6''),
                          (''submissionId'', Str ''s6''),
                          (''respondentId'', Str ''p6''),
                          (''formId'', Str ''f6''),
                          (''formName'', Str ''Team update''),
                          (''createdAt'', Str ''2025-03-03''),
                          (''fields'', Arr (form_fields @ [new_update, repeated_update]))])]"

definition repeat_merged :: js where
  "repeat_merged =
     Obj [(''eventId'', Str ''e6''),
          (''createdAt'', Str ''2025-03-03''),
          (''data'', Obj [(''responseId'', Str ''r6''),
                          (''submissionId'', Str ''s6''),
                          (''formName'', Str ''Team update''),
                          (''fields'', Arr (prior_fields @ form_fields @
                                            [field ''u7'' ''Motto'' (Str ''go'')])),
                          (''respondentId'', Str ''p6''),
                          (''formId'', Str ''f6''),
                          (''createdAt'', Str ''2025-03-03'')]),
          (''previous-team-state'', Str ''s1'')]"

text \<open>An update whose own \<^verbatim>\<open>submissionId\<close> cannot be converted to a string.\<close>

definition unloggable_payload :: js where
  "unloggable_payload =
     Obj [(''eventId'', Str ''e7''),
          (''data'', Obj [(''submissionId'', Obj [(''toString'', Num ''1'')]),
                          (''fields'', Arr form_fields)])]"

text \<open>The same update sent by somebody who is not on the team.\<close>

definition stranger_fields :: "js list" where
  "stranger_fields =
     [field ''u1'' ''Email of person filling this form'' (Str ''c@z.com''),
      field ''u2'' ''Phone number of person filling this form'' (Str ''333''),
      field ''u3'' ''Team ID'' (Str ''s1'')]"

definition stranger_payload :: js where
  "stranger_payload =
     Obj [(''eventId'', Str ''e5''), (''data'', Obj [(''fields'', Arr stranger_fields)])]"

text \<open>A stored record whose identifiers are numbers, and an update that names it.\<close>

definition numeric_record :: js where
  "numeric_record =
     Obj [(''eventId'', Str ''e3''),
          (''data'', Obj [(''responseId'', Num ''42''), (''submissionId'', Num ''42''),
                          (''fields'', Arr prior_fields)])]"

definition numeric_update :: js where
  "numeric_update =
     Obj [(''eventId'', Str ''e4''),
          (''data'', Obj [(''fields'',
             Arr [field ''u1'' ''Email of person filling this form'' (Str ''a@x.com''),
                  field ''u2'' ''Phone number of person filling this form'' (Str ''111''),
                  field ''u3'' ''Team ID'' (Num ''42'')])])]"

text \<open>The text of a value, for the documents below.\<close>

definition json_text :: "js \<Rightarrow> string" where
  "json_text v = (case JSON_stringify v of None \<Rightarrow> [] | Some s \<Rightarrow> s)"

text \<open>\<^verbatim>\<open>{ "data" : { } }\<close>, a body with white space.\<close>

definition spaced_body :: string where
  "spaced_body = ''{ '' @ quote ''data'' @ '' : { } }''"

text \<open>
  A platform for the examples. Its parser reads the documents listed here, each
  to the value \<^verbatim>\<open>JSON.parse\<close> gives, and rejects the text \<^verbatim>\<open>not json\<close>; the
  digest is a constant.
\<close>

definition documents :: "(string \<times> js) list" where
  "documents =
     [(''{}'', Obj []),
      (spaced_body, Obj [(''data'', Obj [])]),
      (json_text (Obj [(''eventId'', Str ''e1'')]), Obj [(''eventId'', Str ''e1'')]),
      (json_text prior_record, prior_record),
      (json_text update_payload, update_payload),
      (json_text numeric_record, numeric_record),
      (json_text numeric_update, numeric_update),
      (json_text stranger_payload, stranger_payload),
      (json_text repeat_payload, repeat_payload),
      (json_text unloggable_payload, unloggable_payload)]"

definition demo_env :: env where
  "demo_env = \<lparr>hmac_base64 = (\<lambda>payload. ''c2lnbmVk''), JSON_parse = map_of documents\<rparr>"

definition signed :: "string \<Rightarrow> request" where
  "signed b = \<lparr>tally_signature = Some ''c2lnbmVk'', text_of = b\<rparr>"

definition store_of :: "js list \<Rightarrow> js list \<Rightarrow> store" where
  "store_of submissions teams =
     \<lparr>lists = (\<lambda>key. if key = ''enrolment-submissions'' then submissions
                     else if key = ''enrolment-participants-teams'' then teams else []),
      up = True\<rparr>"

definition status_of :: "exn + response \<Rightarrow> nat option" where
  "status_of r = (case r of Inl e \<Rightarrow> None | Inr x \<Rightarrow> Some (status x))"

definition is_string :: "js \<Rightarrow> bool" where
  "is_string v = (case v of Str s \<Rightarrow> True | _ \<Rightarrow> False)"
section \<open>The normalisers are idempotent\<close>

lemma lower_char_code: "of_char (char_of (of_char c + 32 :: nat)) = ((of_char c + 32) mod 256 :: nat)"
  by (simp only: of_char_of)

lemma is_space_lower_char: "is_space (lower_char c) = is_space c"
  unfolding is_space_def lower_char_def Let_def
  by (auto simp: lower_char_code simp del: of_char_of)

lemma lower_char_idem: "lower_char (lower_char c) = lower_char c"
  unfolding lower_char_def Let_def
  by (auto simp: lower_char_code simp del: of_char_of)

lemma dropWhile_map_lower:
  "dropWhile is_space (map lower_char s) = map lower_char (dropWhile is_space s)"
  by (induction s) (simp_all add: is_space_lower_char)

lemma trim_toLowerCase: "trim (toLowerCase s) = toLowerCase (trim s)"
  by (simp add: trim_def toLowerCase_def dropWhile_map_lower rev_map)

lemma toLowerCase_idem: "toLowerCase (toLowerCase s) = toLowerCase s"
  by (simp add: toLowerCase_def lower_char_idem)

lemma strip_end_hd:
  assumes "xs \<noteq> []" "\<not> P (hd xs)"
  shows "rev (dropWhile P (rev xs)) \<noteq> [] \<and> hd (rev (dropWhile P (rev xs))) = hd xs"
proof -
  define ys where "ys = rev (dropWhile P (rev xs))"
  define zs where "zs = rev (takeWhile P (rev xs))"
  have e: "xs = ys @ zs"
    unfolding ys_def zs_def by (metis rev_append rev_rev_ident takeWhile_dropWhile_id)
  have allP: "\<forall>x\<in>set zs. P x"
    unfolding zs_def by (auto dest: set_takeWhileD)
  have "ys \<noteq> []"
  proof
    assume "ys = []"
    with e have "xs = zs" by simp
    with assms(1) have "hd xs \<in> set zs" by simp
    with allP assms(2) show False by blast
  qed
  moreover from this e have "hd ys = hd xs" by simp
  ultimately show ?thesis unfolding ys_def by blast
qed

lemma dropWhile_fix: "xs = [] \<or> \<not> P (hd xs) \<Longrightarrow> dropWhile P xs = xs"
  by (cases xs) auto

lemma dropWhile_none: "\<forall>c\<in>set ys. \<not> P c \<Longrightarrow> dropWhile P ys = ys"
  by (cases ys) auto

lemma trim_idem: "trim (trim s) = trim s"
proof -
  define t where "t = dropWhile is_space s"
  define u where "u = rev (dropWhile is_space (rev t))"
  have u: "dropWhile is_space u = u"
  proof (cases "t = []")
    case True
    then show ?thesis unfolding u_def by simp
  next
    case False
    then have "\<not> is_space (hd t)"
      using hd_dropWhile[of is_space s] unfolding t_def by blast
    with False have "u \<noteq> [] \<and> hd u = hd t" unfolding u_def by (rule strip_end_hd)
    with \<open>\<not> is_space (hd t)\<close> show ?thesis by (intro dropWhile_fix) simp
  qed
  have "trim s = u" unfolding trim_def u_def t_def ..
  moreover have "trim u = u"
    unfolding trim_def by (simp only: u) (simp add: u_def dropWhile_idem)
  ultimately show ?thesis by simp
qed

lemma trim_remove_spaces: "trim (remove_spaces s) = remove_spaces s"
  unfolding trim_def remove_spaces_def by (simp add: dropWhile_none)

lemma remove_spaces_idem: "remove_spaces (remove_spaces s) = remove_spaces s"
  by (simp add: remove_spaces_def)

text \<open>
  C8. \<^verbatim>\<open>normalizeEmail\<close> and \<^verbatim>\<open>normalizePhone\<close> are idempotent: on every input, a
  string or not, normalising the result again gives the same result.
\<close>

theorem normalize_idempotent:
  "normalizeEmail (Str (normalizeEmail x)) = normalizeEmail x \<and>
   normalizePhone (Str (normalizePhone x)) = normalizePhone x"
proof
  show "normalizeEmail (Str (normalizeEmail x)) = normalizeEmail x"
    by (cases x) (simp_all add: trim_toLowerCase toLowerCase_idem trim_idem)
  show "normalizePhone (Str (normalizePhone x)) = normalizePhone x"
    by (cases x) (simp_all add: trim_remove_spaces remove_spaces_idem)
qed

section \<open>Finding a field by its label\<close>

lemma str_includes_sublist: "str_includes s t = sublist t s"
  by (induction s) (simp_all add: sublist_Cons_right)

lemma label_contains_truthy: "label_contains l f \<Longrightarrow> truthy f"
  by (cases f) (simp_all add: label_contains_def opt_get_def)

lemma label_includes_plain:
  "plain_label f \<Longrightarrow> label_includes f l = Inr (label_contains l f)"
  by (simp add: label_includes_def plain_label_def label_contains_def str_includes_sublist
      split: js.splits)

lemma find_field_plain:
  "\<forall>f\<in>set fs. plain_label f \<Longrightarrow>
   find_field fs l = Inr (case find (label_contains l) fs of None \<Rightarrow> Undefined | Some f \<Rightarrow> f)"
  by (induction fs) (simp_all add: label_includes_plain then_do_def)

text \<open>
  C7. \<^verbatim>\<open>findFieldByLabel\<close> returns null for an absent (undefined or null) and for an
  empty field list. On a list whose elements have string labels (or none), it
  returns the first element, in list order, whose label contains the query as a
  substring, and null when there is none.
\<close>

theorem findFieldByLabel_first_match:
  "findFieldByLabel Undefined l = Inr Null \<and>
   findFieldByLabel Null l = Inr Null \<and>
   findFieldByLabel (Arr []) l = Inr Null \<and>
   ((\<forall>f\<in>set fs. plain_label f) \<longrightarrow>
      findFieldByLabel (Arr fs) l =
        Inr (case find (label_contains l) fs of None \<Rightarrow> Null | Some f \<Rightarrow> f))"
proof (intro conjI impI)
  assume p: "\<forall>f\<in>set fs. plain_label f"
  show "findFieldByLabel (Arr fs) l =
        Inr (case find (label_contains l) fs of None \<Rightarrow> Null | Some f \<Rightarrow> f)"
  proof (cases "find (label_contains l) fs")
    case None
    then show ?thesis by (simp add: find_field_plain[OF p] then_do_def)
  next
    case (Some f)
    then have "label_contains l f" by (auto simp: find_Some_iff)
    then have "truthy f" by (rule label_contains_truthy)
    with Some show ?thesis by (simp add: find_field_plain[OF p] then_do_def)
  qed
qed (simp_all add: then_do_def)

text \<open>
  The query \<^verbatim>\<open>Phone number\<close> is not the whole of any label; the first label that
  contains it wins over a later one.
\<close>

theorem findFieldByLabel_first_match_witness:
  "findFieldByLabel
     (Arr [field ''q1'' ''1: Email'' (Str ''a@x.com''),
           field ''q2'' ''1: Phone number'' (Str ''111''),
           field ''q3'' ''Phone number of person filling this form'' (Str ''222'')])
     ''Phone number''
   = Inr (field ''q2'' ''1: Phone number'' (Str ''111''))"
proof -
  let ?fs = "[field ''q1'' ''1: Email'' (Str ''a@x.com''),
           field ''q2'' ''1: Phone number'' (Str ''111''),
           field ''q3'' ''Phone number of person filling this form'' (Str ''222'')]"
  have p: "\<forall>f\<in>set ?fs. plain_label f"
    by (simp add: plain_label_def field_def opt_get_def)
  have c: "find (label_contains ''Phone number'') ?fs =
           Some (field ''q2'' ''1: Phone number'' (Str ''111''))"
    by (simp add: label_contains_def field_def opt_get_def sublist_code)
  from findFieldByLabel_first_match[of "''Phone number''" ?fs] p
  have "findFieldByLabel (Arr ?fs) ''Phone number'' =
        Inr (case find (label_contains ''Phone number'') ?fs of None \<Rightarrow> Null | Some f \<Rightarrow> f)"
    by blast
  then show ?thesis by (simp only: c option.case)
qed

section \<open>The merge\<close>

lemma map_of_put: "map_of (put kvs k v) = (map_of kvs)(k \<mapsto> v)"
  by (induction kvs) (auto simp: fun_eq_iff)

lemma opt_get_put:
  "opt_get (Obj (put kvs k v)) k' = (if k' = k then v else opt_get (Obj kvs) k')"
  by (simp add: opt_get_def map_of_put)

lemma get_total: "get u k0 = Inr x \<Longrightarrow> get u k = Inr (opt_get u k)"
  by (cases u) (simp_all add: opt_get_def)

lemma strict_eq_eq: "strict_eq a b \<Longrightarrow> a = b"
  by (cases a; cases b) simp_all

lemma get_defined_Obj: "get f k = Inr v \<Longrightarrow> v \<noteq> Undefined \<Longrightarrow> \<exists>kvs. f = Obj kvs"
  by (cases f) simp_all

lemma findIndex_label_Some:
  "findIndex_label fs l = Inr (Some i) \<Longrightarrow>
   i < length fs \<and> strict_eq (opt_get (fs ! i) ''label'') l \<and> \<not> nullish (fs ! i) \<and>
   (\<forall>j<i. \<not> strict_eq (opt_get (fs ! j) ''label'') l)"
proof (induction fs arbitrary: i)
  case Nil
  then show ?case by simp
next
  case (Cons f fs)
  show ?case
  proof (cases "get f ''label''")
    case (Inl e)
    with Cons.prems show ?thesis by (simp add: then_do_def)
  next
    case (Inr fl)
    then have og: "opt_get f ''label'' = fl" and nn: "\<not> nullish f"
      by (cases f; simp add: opt_get_def)+
    show ?thesis
    proof (cases "strict_eq fl l")
      case True
      with Inr Cons.prems have "i = 0" by (simp add: then_do_def)
      with True og nn show ?thesis by simp
    next
      case False
      with Inr Cons.prems obtain i' where r: "findIndex_label fs l = Inr (Some i')" and i: "i = Suc i'"
        by (auto simp: then_do_def split: sum.splits)
      from Cons.IH[OF r] False og i show ?thesis
        by (auto simp: less_Suc_eq_0_disj)
    qed
  qed
qed

lemma findIndex_label_None:
  "\<forall>f\<in>set fs. \<not> nullish f \<and> \<not> strict_eq (opt_get f ''label'') l \<Longrightarrow>
   findIndex_label fs l = Inr None"
proof (induction fs)
  case Nil
  then show ?case by simp
next
  case (Cons f fs)
  then have "\<not> nullish f" by simp
  then have "get f ''label'' = Inr (opt_get f ''label'')" by (cases f) (simp_all add: opt_get_def)
  with Cons show ?case by (simp add: then_do_def)
qed


lemma override_field_Obj:
  assumes "get u ''label'' = Inr l"
  shows "override_field (Obj kvs) u = Inr (Obj (overridden kvs u))"
proof -
  have g: "get u k = Inr (opt_get u k)" for k using assms by (rule get_total)
  show ?thesis
    by (simp add: override_field_def overridden_def g then_do_def Let_def)
qed

lemma overridden_props:
  "opt_get (Obj (overridden kvs u)) ''value'' =
     (if opt_get u ''value'' \<in> {Null, Undefined, Str []} then opt_get (Obj kvs) ''value''
      else opt_get u ''value'')"
  "opt_get (Obj (overridden kvs u)) ''key'' = opt_get u ''key''"
  "opt_get (Obj (overridden kvs u)) ''type'' =
     (if truthy (opt_get u ''type'') then opt_get u ''type'' else opt_get (Obj kvs) ''type'')"
  "opt_get (Obj (overridden kvs u)) ''options'' =
     (if truthy (opt_get u ''options'') then opt_get u ''options'' else opt_get (Obj kvs) ''options'')"
  "k \<notin> {''value'', ''key'', ''type'', ''options''} \<Longrightarrow>
     opt_get (Obj (overridden kvs u)) k = opt_get (Obj kvs) k"
  by (simp_all add: overridden_def Let_def opt_get_put)

lemma record_fields_Arr:
  assumes "record_fields m = Arr fs"
  obtains mk dk where "m = Obj mk" "map_of mk ''data'' = Some (Obj dk)"
    "map_of dk ''fields'' = Some (Arr fs)"
proof -
  from assms obtain d where d: "opt_get m ''data'' = d" "opt_get d ''fields'' = Arr fs"
    by (simp add: record_fields_def)
  from d(2) obtain dk where dk: "d = Obj dk" "map_of dk ''fields'' = Some (Arr fs)"
    by (cases d) (auto simp: opt_get_def split: option.splits)
  from d(1) dk(1) obtain mk where "m = Obj mk" "map_of mk ''data'' = Some (Obj dk)"
    by (cases m) (auto simp: opt_get_def split: option.splits)
  with dk(2) that show ?thesis by blast
qed

lemma merge_step_fields:
  assumes "record_fields m = Arr fs" "get u ''label'' = Inr l" "truthy l"
    "merge_field fs u = Inr fs'"
  shows "\<exists>m'. merge_step m u = Inr m' \<and> record_fields m' = Arr fs'"
proof -
  from assms(1) obtain mk dk where m: "m = Obj mk" "map_of mk ''data'' = Some (Obj dk)"
    "map_of dk ''fields'' = Some (Arr fs)" by (rule record_fields_Arr)
  have "merge_step m u = Inr (Obj (put mk ''data'' (Obj (put dk ''fields'' (Arr fs')))))"
    using assms(2-4) m by (simp add: merge_step_def then_do_def)
  moreover have "record_fields (Obj (put mk ''data'' (Obj (put dk ''fields'' (Arr fs'))))) = Arr fs'"
    by (simp add: record_fields_def opt_get_put)
  ultimately show ?thesis by simp
qed

lemma merge_field_Some:
  assumes "get u ''label'' = Inr l" "truthy l" "findIndex_label fs l = Inr (Some i)"
  shows "\<exists>kvs. fs ! i = Obj kvs \<and> merge_field fs u = Inr (fs[i := Obj (overridden kvs u)])"
proof -
  from findIndex_label_Some[OF assms(3)]
  have s: "strict_eq (opt_get (fs ! i) ''label'') l" by simp
  then have "opt_get (fs ! i) ''label'' = l" by (rule strict_eq_eq)
  moreover from assms(2) have "l \<noteq> Undefined" by auto
  ultimately obtain kvs where k: "fs ! i = Obj kvs"
    by (cases "fs ! i") (auto simp: opt_get_def)
  have "merge_field fs u = Inr (fs[i := Obj (overridden kvs u)])"
    using assms k by (simp add: merge_field_def then_do_def override_field_Obj[OF assms(1)])
  with k show ?thesis by simp
qed

lemma merge_field_None:
  assumes "get u ''label'' = Inr l" "truthy l"
    "\<forall>f\<in>set fs. \<not> nullish f \<and> \<not> strict_eq (opt_get f ''label'') l"
  shows "merge_field fs u = Inr (fs @ [u])"
  using assms(1,2) findIndex_label_None[OF assms(3)]
  by (simp add: merge_field_def then_do_def)


lemma map_fst_put:
  "map fst (put kvs k v) = (if k \<in> set (map fst kvs) then map fst kvs else map fst kvs @ [k])"
  by (induction kvs) force+

lemma fst_set_put: "fst ` set (put kvs k v) = insert k (fst ` set kvs)"
  using arg_cong[OF map_fst_put[of kvs k v], of set] by auto

lemma distinct_put: "distinct (map fst kvs) \<Longrightarrow> distinct (map fst (put kvs k v))"
  by (simp add: map_fst_put)

lemma distinct_overridden: "distinct (map fst kvs) \<Longrightarrow> distinct (map fst (overridden kvs u))"
  by (simp add: overridden_def Let_def distinct_put)

lemma stringify_members_absent:
  "k \<notin> fst ` set kvs \<Longrightarrow> filter (\<lambda>p. fst p \<noteq> k) kvs = kvs"
  by (induction kvs) auto

lemma stringify_members_undefined:
  "distinct (map fst kvs) \<Longrightarrow> map_of kvs k = Some Undefined \<Longrightarrow>
   stringify_members kvs = stringify_members (filter (\<lambda>p. fst p \<noteq> k) kvs)"
proof (induction kvs)
  case Nil
  then show ?case by simp
next
  case (Cons p kvs)
  obtain k' v where p: "p = (k', v)" by (cases p)
  show ?case
  proof (cases "k' = k")
    case True
    with Cons.prems p have "v = Undefined" "k \<notin> fst ` set kvs" by auto
    with True p show ?thesis by (simp add: stringify_members_absent)
  next
    case False
    with Cons p show ?thesis by (simp split: option.splits)
  qed
qed

subsection \<open>The search and the loop\<close>

lemma label_of_put_label:
  "k \<noteq> ''label'' \<Longrightarrow> label_of (Obj (put kvs k v)) = label_of (Obj kvs)"
  by (simp add: label_of_def opt_get_put)

lemma label_of_overridden: "label_of (Obj (overridden kvs u)) = label_of (Obj kvs)"
  using overridden_props(5)[of "''label''" kvs u] by (simp add: label_of_def)

lemma get_present: "\<not> nullish f \<Longrightarrow> get f k = Inr (opt_get f k)"
  by (cases f) (simp_all add: opt_get_def)

lemma findIndex_label_first:
  "all_present (take (Suc i) fs) \<Longrightarrow> first_with_label l fs i \<Longrightarrow>
   findIndex_label fs l = Inr (Some i)"
proof (induction fs arbitrary: i)
  case Nil
  then show ?case by (simp add: first_with_label_def)
next
  case (Cons f fs)
  from Cons.prems(1) have g: "get f ''label'' = Inr (label_of f)"
    by (simp add: all_present_def get_present label_of_def)
  show ?case
  proof (cases i)
    case 0
    with Cons.prems(2) g show ?thesis by (simp add: first_with_label_def then_do_def)
  next
    case (Suc i')
    from Cons.prems Suc have n: "\<not> strict_eq (label_of f) l"
      and f: "first_with_label l fs i'" and a: "all_present (take (Suc i') fs)"
      by (simp_all add: first_with_label_def all_present_def)
    from Cons.IH[OF a f] g n Suc show ?thesis by (simp add: then_do_def)
  qed
qed

lemma has_label_first: "has_label l fs \<Longrightarrow> \<exists>i. first_with_label l fs i"
proof (induction fs)
  case Nil
  then show ?case by (simp add: has_label_def)
next
  case (Cons f fs)
  show ?case
  proof (cases "strict_eq (label_of f) l")
    case True
    then have "first_with_label l (f # fs) 0" by (simp add: first_with_label_def)
    then show ?thesis ..
  next
    case False
    with Cons.prems have "has_label l fs" by (simp add: has_label_def)
    from Cons.IH[OF this] obtain i where "first_with_label l fs i" ..
    with False have "first_with_label l (f # fs) (Suc i)" by (simp add: first_with_label_def)
    then show ?thesis ..
  qed
qed

lemma first_with_label_has: "first_with_label l fs i \<Longrightarrow> has_label l fs"
  by (auto simp: first_with_label_def has_label_def list_ex_iff)

lemma first_with_label_unique:
  "first_with_label l fs i \<Longrightarrow> first_with_label l fs j \<Longrightarrow> i = j"
proof (rule ccontr)
  assume a: "first_with_label l fs i" "first_with_label l fs j" and n: "i \<noteq> j"
  have *: False if "first_with_label l fs a" "first_with_label l fs b" "a < b" for a b
  proof -
    from that have "fs ! a \<in> set (take b fs)"
      by (metis first_with_label_def in_set_conv_nth length_take min_less_iff_conj nth_take)
    with that show False by (auto simp: first_with_label_def list_all_iff)
  qed
  from n consider "i < j" | "j < i" by linarith
  then show False using * a by cases blast+
qed

lemma no_label_findIndex:
  "all_present fs \<Longrightarrow> \<not> has_label l fs \<Longrightarrow> findIndex_label fs l = Inr None"
  by (rule findIndex_label_None)
     (auto simp: all_present_def has_label_def list_all_iff list_ex_iff label_of_def)


lemma all_present_take: "all_present fs \<Longrightarrow> all_present (take n fs)"
  by (auto simp: all_present_def list_all_iff dest: in_set_takeD)

lemma merge_step_skip: "\<not> nullish u \<Longrightarrow> \<not> truthy (label_of u) \<Longrightarrow> merge_step m u = Inr m"
  by (simp add: merge_step_def then_do_def get_present label_of_def)

lemma merge_step_override:
  assumes "record_fields m = Arr fs" "all_present fs" "\<not> nullish u"
    "truthy (label_of u)" "first_with_label (label_of u) fs i"
  shows "\<exists>kvs m'. fs ! i = Obj kvs \<and> merge_step m u = Inr m' \<and>
           record_fields m' = Arr (fs[i := Obj (overridden kvs u)])"
proof -
  have g: "get u ''label'' = Inr (label_of u)"
    using assms(3) by (simp add: get_present label_of_def)
  have f: "findIndex_label fs (label_of u) = Inr (Some i)"
    using all_present_take[OF assms(2)] assms(5) by (rule findIndex_label_first)
  from merge_field_Some[OF g assms(4) f] obtain kvs where
    k: "fs ! i = Obj kvs" "merge_field fs u = Inr (fs[i := Obj (overridden kvs u)])" by blast
  from merge_step_fields[OF assms(1) g assms(4) k(2)] k(1) show ?thesis by blast
qed

lemma merge_step_append:
  assumes "record_fields m = Arr fs" "all_present fs" "\<not> nullish u"
    "truthy (label_of u)" "\<not> has_label (label_of u) fs"
  shows "\<exists>m'. merge_step m u = Inr m' \<and> record_fields m' = Arr (fs @ [u])"
proof -
  have g: "get u ''label'' = Inr (label_of u)"
    using assms(3) by (simp add: get_present label_of_def)
  have "merge_field fs u = Inr (fs @ [u])"
    using g assms(4) no_label_findIndex[OF assms(2,5)]
    by (simp add: merge_field_def then_do_def)
  from merge_step_fields[OF assms(1) g assms(4) this] show ?thesis .
qed

lemma has_label_nth: "has_label l fs = (\<exists>p<length fs. strict_eq (label_of (fs ! p)) l)"
  by (simp add: has_label_def list_ex_iff) (metis in_set_conv_nth)

lemma keeps_nth: "keeps fs fs' = (all_present fs' \<and> length fs \<le> length fs' \<and>
     (\<forall>p<length fs. label_of (fs' ! p) = label_of (fs ! p)))"
  by (auto simp: keeps_def list_all_iff)

lemma merge_step_frame:
  assumes "record_fields m = Arr fs" "all_present fs" "\<not> nullish u"
  shows "\<exists>m' fs'. merge_step m u = Inr m' \<and> record_fields m' = Arr fs' \<and> keeps fs fs' \<and>
           (\<forall>p<length fs. \<not> strict_eq (label_of (fs ! p)) (label_of u) \<longrightarrow> fs' ! p = fs ! p) \<and>
           (\<forall>l. \<not> has_label l fs \<and> \<not> strict_eq (label_of u) l \<longrightarrow> \<not> has_label l fs')"
proof (cases "truthy (label_of u)")
  case False
  with merge_step_skip[OF assms(3)] assms(1,2) show ?thesis by (auto simp: keeps_nth)
next
  case t: True
  show ?thesis
  proof (cases "has_label (label_of u) fs")
    case True
    then obtain i where i: "first_with_label (label_of u) fs i" using has_label_first by blast
    from merge_step_override[OF assms t i] obtain kvs m' where
      k: "fs ! i = Obj kvs" "merge_step m u = Inr m'"
         "record_fields m' = Arr (fs[i := Obj (overridden kvs u)])" by blast
    let ?fs' = "fs[i := Obj (overridden kvs u)]"
    have il: "i < length fs" and ie: "strict_eq (label_of (fs ! i)) (label_of u)"
      using i by (simp_all add: first_with_label_def)
    have lab: "label_of (?fs' ! p) = label_of (fs ! p)" if "p < length fs" for p
      using that k(1) by (cases "p = i") (simp_all add: label_of_overridden)
    have pres: "all_present ?fs'"
      using assms(2) by (auto simp: all_present_def list_all_iff dest!: set_update_subset_insert[THEN subsetD])
    have "keeps fs ?fs'" using lab pres by (simp add: keeps_nth)
    moreover have "\<forall>p<length fs. \<not> strict_eq (label_of (fs ! p)) (label_of u) \<longrightarrow> ?fs' ! p = fs ! p"
    proof (intro allI impI)
      fix p assume "p < length fs" "\<not> strict_eq (label_of (fs ! p)) (label_of u)"
      with ie have "p \<noteq> i" by auto
      then show "?fs' ! p = fs ! p" by simp
    qed
    moreover have "\<forall>l. \<not> has_label l fs \<and> \<not> strict_eq (label_of u) l \<longrightarrow> \<not> has_label l ?fs'"
      using lab by (auto simp: has_label_nth)
    ultimately show ?thesis using k(2,3) by blast
  next
    case False
    from merge_step_append[OF assms t False] obtain m' where
      k: "merge_step m u = Inr m'" "record_fields m' = Arr (fs @ [u])" by blast
    have "keeps fs (fs @ [u])"
      using assms(2,3) by (simp add: keeps_nth all_present_def nth_append)
    moreover have "\<forall>p<length fs. (fs @ [u]) ! p = fs ! p" by (simp add: nth_append)
    moreover have "\<forall>l. \<not> has_label l fs \<and> \<not> strict_eq (label_of u) l \<longrightarrow> \<not> has_label l (fs @ [u])"
      by (simp add: has_label_def)
    ultimately show ?thesis using k by blast
  qed
qed

lemma keeps_trans: "keeps fs fs' \<Longrightarrow> keeps fs' fs'' \<Longrightarrow> keeps fs fs''"
  by (auto simp: keeps_nth)

lemma keeps_refl: "all_present fs \<Longrightarrow> keeps fs fs"
  by (simp add: keeps_nth)

lemma merge_loop_frame:
  assumes "record_fields m = Arr fs" "all_present fs" "all_present us"
  shows "\<exists>m' fs'. merge_loop m us = Inr m' \<and> record_fields m' = Arr fs' \<and> keeps fs fs' \<and>
           (\<forall>p<length fs. (\<forall>v\<in>set us. \<not> strict_eq (label_of (fs ! p)) (label_of v)) \<longrightarrow>
               fs' ! p = fs ! p) \<and>
           (\<forall>l. \<not> has_label l fs \<and> (\<forall>v\<in>set us. \<not> strict_eq (label_of v) l) \<longrightarrow>
               \<not> has_label l fs')"
  using assms
proof (induction us arbitrary: m fs)
  case Nil
  then show ?case by (simp add: keeps_refl)
next
  case (Cons u us)
  from Cons.prems(3) have pu: "\<not> nullish u" and pus: "all_present us"
    by (simp_all add: all_present_def)
  from merge_step_frame[OF Cons.prems(1,2) pu] obtain m1 fs1 where
    s: "merge_step m u = Inr m1" "record_fields m1 = Arr fs1" "keeps fs fs1"
       "\<forall>p<length fs. \<not> strict_eq (label_of (fs ! p)) (label_of u) \<longrightarrow> fs1 ! p = fs ! p"
       "\<forall>l. \<not> has_label l fs \<and> \<not> strict_eq (label_of u) l \<longrightarrow> \<not> has_label l fs1"
    by blast
  from s(3) have p1: "all_present fs1" by (simp add: keeps_nth)
  from Cons.IH[OF s(2) p1 pus] obtain m' fs' where
    r: "merge_loop m1 us = Inr m'" "record_fields m' = Arr fs'" "keeps fs1 fs'"
       "\<forall>p<length fs1. (\<forall>v\<in>set us. \<not> strict_eq (label_of (fs1 ! p)) (label_of v)) \<longrightarrow>
           fs' ! p = fs1 ! p"
       "\<forall>l. \<not> has_label l fs1 \<and> (\<forall>v\<in>set us. \<not> strict_eq (label_of v) l) \<longrightarrow>
           \<not> has_label l fs'"
    by blast
  have a: "merge_loop m (u # us) = Inr m'" using s(1) r(1) by (simp add: then_do_def)
  have b: "keeps fs fs'" using s(3) r(3) by (rule keeps_trans)
  have c: "fs' ! p = fs ! p"
    if "p < length fs" "\<forall>v\<in>set (u # us). \<not> strict_eq (label_of (fs ! p)) (label_of v)" for p
  proof -
    from that s(4) have e: "fs1 ! p = fs ! p" by simp
    from that(1) s(3) have l: "p < length fs1" by (simp add: keeps_nth)
    with that(2) e r(4) have "fs' ! p = fs1 ! p" by simp
    with e show ?thesis by simp
  qed
  have d: "\<not> has_label l fs'"
    if "\<not> has_label l fs" "\<forall>v\<in>set (u # us). \<not> strict_eq (label_of v) l" for l
    using that s(5) r(5) by simp
  from a r(2) b c d show ?case by blast
qed

lemma merge_loop_append:
  "merge_loop m (us1 @ us2) = then_do (merge_loop m us1) (\<lambda>m1. merge_loop m1 us2)"
  by (induction us1 arbitrary: m) (simp_all add: then_do_def split: sum.splits)

lemma keeps_first_with_label:
  "keeps fs fs1 \<Longrightarrow> first_with_label l fs i \<Longrightarrow> first_with_label l fs1 i"
  by (auto simp: keeps_nth first_with_label_def list_all_length)

section \<open>The submission handler\<close>

lemma demo_signed: "isValidSignature demo_env b (received_signature (signed b))"
  by (simp add: isValidSignature_def demo_env_def received_signature_def signed_def
      timingSafeEqual_def)

lemma demo_parse_empty_object: "JSON_parse demo_env ''{}'' = Some (Obj [])"
  by (simp add: demo_env_def documents_def)

lemma demo_parse_spaced: "JSON_parse demo_env spaced_body = Some (Obj [(''data'', Obj [])])"
  by (simp add: demo_env_def documents_def spaced_body_def quote_def quote_char_def)

text \<open>
  C1. A response that is not 2xx leaves the list store as it was. The submission
  handler breaks this: it pushes, and then builds a log line that reads
  \<^verbatim>\<open>json.data.formName\<close>. On the signed body \<^verbatim>\<open>{}\<close> that read throws, the answer is
  500, and the push has happened.
\<close>

theorem submission_500_after_push:
  "status (fst (POST_submission demo_env (store_of [] []) (signed ''{}''))) = 500 \<and>
   lists (store_of [] []) ''enrolment-submissions'' = [] \<and>
   lists (snd (POST_submission demo_env (store_of [] []) (signed ''{}'')))
     ''enrolment-submissions'' = [Str ''{}'']"
proof -
  have t: "text_of (signed ''{}'') = ''{}''" by (simp add: signed_def)
  have q: "queued_log_line (Obj []) = Inl TypeError"
    by (simp add: queued_log_line_def then_do_def)
  have s: "stringified (Obj []) = Str ''{}''" by (simp add: stringified_def)
  show ?thesis
    using demo_signed[of "''{}''"]
    by (simp add: POST_submission_def Let_def t demo_parse_empty_object q s lpush_def
        store_of_def handleError_def)
qed

text \<open>
  C2 as stated (the raw body is pushed onto the tail) fails.
  The signed body \<^verbatim>\<open>{ "data" : { } }\<close> on a queue that holds one item: the answer
  is 200, the item pushed is the re-serialised text \<^verbatim>\<open>{"data":{}}\<close>, not the body,
  and it is the first item of the list, not the last.
\<close>

theorem submission_pushes_raw_at_tail_counterexample:
  "fst (POST_submission demo_env (store_of [Str ''{}''] []) (signed spaced_body)) = ok_response \<and>
   lists (snd (POST_submission demo_env (store_of [Str ''{}''] []) (signed spaced_body)))
     ''enrolment-submissions'' = [Str (''{'' @ quote ''data'' @ '':{}}''), Str ''{}''] \<and>
   lists (snd (POST_submission demo_env (store_of [Str ''{}''] []) (signed spaced_body)))
     ''enrolment-submissions'' \<noteq> lists (store_of [Str ''{}''] []) ''enrolment-submissions'' @ [Str spaced_body]"
proof -
  have t: "text_of (signed spaced_body) = spaced_body" by (simp add: signed_def)
  have q: "queued_log_line (Obj [(''data'', Obj [])]) = Inr ()"
    by (simp add: queued_log_line_def then_do_def)
  have s: "stringified (Obj [(''data'', Obj [])]) = Str (''{'' @ quote ''data'' @ '':{}}'')"
    by (simp add: stringified_def)
  have n: "''{'' @ quote ''data'' @ '':{}}'' \<noteq> spaced_body"
    by (simp add: spaced_body_def quote_def quote_char_def)
  show ?thesis
    using demo_signed[of spaced_body]
    by (simp add: POST_submission_def Let_def t demo_parse_spaced q s n lpush_def
        store_of_def)
qed

text \<open>
  C2, amended. On a submission whose signature verifies and whose body parses,
  while the store is available, \<^verbatim>\<open>JSON.stringify\<close> of the parsed body is pushed at
  the head of \<^verbatim>\<open>enrolment-submissions\<close> and no other list changes; the response
  is 200 \<^verbatim>\<open>{status: "ok"}\<close> when neither the parsed body nor its \<^verbatim>\<open>data\<close> is null
  or undefined and both \<^verbatim>\<open>eventType\<close> and \<^verbatim>\<open>data.formName\<close> can be converted to
  strings for the log line.
\<close>

theorem submission_pushes_serialised_at_head:
  assumes "isValidSignature env (text_of rq) (received_signature rq)"
    and "JSON_parse env (text_of rq) = Some json"
    and "up st"
  shows "lists (snd (POST_submission env st rq)) ''enrolment-submissions'' =
           stringified json # lists st ''enrolment-submissions'' \<and>
         (\<forall>key. key \<noteq> ''enrolment-submissions'' \<longrightarrow>
            lists (snd (POST_submission env st rq)) key = lists st key) \<and>
         (json \<noteq> Undefined \<longrightarrow> stringified json = Str (json_text json)) \<and>
         (\<not> nullish json \<and> \<not> nullish (opt_get json ''data'') \<and>
          convertible (opt_get json ''eventType'') \<and>
          convertible (opt_get (opt_get json ''data'') ''formName'') \<longrightarrow>
            fst (POST_submission env st rq) = ok_response)"
proof -
  have a: "queued_log_line json = Inr ()"
    if "\<not> nullish json \<and> \<not> nullish (opt_get json ''data'') \<and>
        convertible (opt_get json ''eventType'') \<and>
        convertible (opt_get (opt_get json ''data'') ''formName'')"
  proof -
    from that have g: "get json k = Inr (opt_get json k)"
      "get (opt_get json ''data'') k = Inr (opt_get (opt_get json ''data'') k)" for k
      by (simp_all add: get_present)
    from that show ?thesis
      by (auto simp: queued_log_line_def then_do_def g convertible_def split: sum.splits)
  qed
  have b: "json \<noteq> Undefined \<Longrightarrow> stringified json = Str (json_text json)"
    by (cases json) (simp_all add: stringified_def json_text_def)
  show ?thesis
    using assms a b
    by (auto simp: POST_submission_def Let_def lpush_def split: sum.splits)
qed

section \<open>Deleting from the submission queue\<close>

lemma scan_items_None:
  "\<forall>raw\<in>set items. \<not> entry_matches env eid raw \<Longrightarrow> scan_items env eid items k = None"
  by (induction items arbitrary: k) simp_all

lemma scan_items_first:
  "i < length items \<Longrightarrow> entry_matches env eid (items ! i) \<Longrightarrow>
   \<forall>j<i. \<not> entry_matches env eid (items ! j) \<Longrightarrow>
   scan_items env eid items k = Some (k + i, items ! i)"
proof (induction items arbitrary: i k)
  case Nil
  then show ?case by simp
next
  case (Cons raw rest)
  show ?case
  proof (cases i)
    case 0
    with Cons.prems show ?thesis by simp
  next
    case (Suc i')
    from Cons.prems(3) Suc have "\<not> entry_matches env eid raw" by auto
    moreover have "scan_items env eid rest (Suc k) = Some (Suc k + i', rest ! i')"
    proof (rule Cons.IH)
      show "i' < length rest" using Cons.prems(1) Suc by simp
      show "entry_matches env eid (rest ! i')" using Cons.prems(2) Suc by simp
      show "\<forall>j<i'. \<not> entry_matches env eid (rest ! j)"
        using Cons.prems(3) Suc by auto
    qed
    ultimately show ?thesis using Suc by simp
  qed
qed

lemma entry_matches_Null: "\<not> entry_matches env eid Null"
  by (simp add: entry_matches_def then_do_def)

lemma entry_matches_unparsable: "parse_item env raw = Inl e \<Longrightarrow> \<not> entry_matches env eid raw"
  by (simp add: entry_matches_def then_do_def)

lemma remove1_first_at:
  "i < length xs \<Longrightarrow> \<forall>j<i. xs ! j \<noteq> xs ! i \<Longrightarrow> remove1 (xs ! i) xs = take i xs @ drop (Suc i) xs"
proof (induction xs arbitrary: i)
  case Nil
  then show ?case by simp
next
  case (Cons x xs)
  show ?case
  proof (cases i)
    case 0
    then show ?thesis by simp
  next
    case (Suc i')
    from Cons.prems(2) Suc have "x \<noteq> xs ! i'" by auto
    moreover have "remove1 (xs ! i') xs = take i' xs @ drop (Suc i') xs"
    proof (rule Cons.IH)
      show "i' < length xs" using Cons.prems(1) Suc by simp
      show "\<forall>j<i'. xs ! j \<noteq> xs ! i'" using Cons.prems(2) Suc by auto
    qed
    ultimately show ?thesis using Suc by simp
  qed
qed

text \<open>
  C3, amended. A \<^verbatim>\<open>DELETE\<close> whose body parses to a value that is not null, while
  the store is available: the response is 400 when the \<^verbatim>\<open>eventId\<close> is missing
  (falsy). For an \<^verbatim>\<open>eventId\<close> that can be converted to a string for the log
  line, the response is 404 when no stored entry matches; when an entry matches,
  the first matching item is removed, that one occurrence and nothing else, and
  the response is 200. An entry that fails to parse matches nothing and does
  not end the scan.
\<close>

theorem delete_by_eventId:
  assumes "JSON_parse env (text_of rq) = Some b"
    and "get b ''eventId'' = Inr eventId"
    and "up st"
    and "items = lists st ''enrolment-submissions''"
  shows
    "(\<not> truthy eventId \<longrightarrow>
        DELETE env st rq =
          (Inr \<lparr>status = 400, body = JsonBody (Obj [(''error'', Str ''Missing eventId'')])\<rparr>, st)) \<and>
     (truthy eventId \<and> convertible eventId \<and>
      (\<forall>raw\<in>set items. \<not> entry_matches env eventId raw) \<longrightarrow>
        DELETE env st rq =
          (Inr \<lparr>status = 404, body = JsonBody (Obj [(''error'', Str ''Event not found'')])\<rparr>, st)) \<and>
     (\<forall>i. truthy eventId \<and> convertible eventId \<and> i < length items \<and>
          entry_matches env eventId (items ! i) \<and>
          (\<forall>j<i. \<not> entry_matches env eventId (items ! j)) \<longrightarrow>
        DELETE env st rq =
          (Inr \<lparr>status = 200, body = JsonBody (Obj [(''success'', Bool True)])\<rparr>,
           st\<lparr>lists := (lists st)(''enrolment-submissions'' :=
                 take i items @ drop (Suc i) items)\<rparr>)) \<and>
     (\<forall>raw e. parse_item env raw = Inl e \<longrightarrow> \<not> entry_matches env eventId raw)"
proof (intro conjI allI impI)
  assume "\<not> truthy eventId"
  with assms show "DELETE env st rq =
      (Inr \<lparr>status = 400, body = JsonBody (Obj [(''error'', Str ''Missing eventId'')])\<rparr>, st)"
    by (simp add: DELETE_def)
next
  assume a: "truthy eventId \<and> convertible eventId \<and>
      (\<forall>raw\<in>set items. \<not> entry_matches env eventId raw)"
  then have "scan_items env eventId items 0 = None" by (simp add: scan_items_None)
  with a assms show "DELETE env st rq =
      (Inr \<lparr>status = 404, body = JsonBody (Obj [(''error'', Str ''Event not found'')])\<rparr>, st)"
    by (auto simp: DELETE_def lrange_def Let_def convertible_def split: sum.splits)
next
  fix i
  assume a: "truthy eventId \<and> convertible eventId \<and> i < length items \<and>
          entry_matches env eventId (items ! i) \<and>
          (\<forall>j<i. \<not> entry_matches env eventId (items ! j))"
  then have s: "scan_items env eventId items 0 = Some (0 + i, items ! i)"
    by (intro scan_items_first) simp_all
  from a have n: "items ! i \<noteq> Null" using entry_matches_Null[of env eventId] by auto
  from a have "\<forall>j<i. items ! j \<noteq> items ! i" by auto
  with a have r: "remove1 (items ! i) items = take i items @ drop (Suc i) items"
    by (intro remove1_first_at) simp_all
  from a assms s n r show "DELETE env st rq =
          (Inr \<lparr>status = 200, body = JsonBody (Obj [(''success'', Bool True)])\<rparr>,
           st\<lparr>lists := (lists st)(''enrolment-submissions'' :=
                 take i items @ drop (Suc i) items)\<rparr>)"
    by (auto simp: DELETE_def lrange_def lrem_def Let_def convertible_def split: sum.splits)
next
  fix raw e
  assume "parse_item env raw = Inl e"
  then show "\<not> entry_matches env eventId raw" by (rule entry_matches_unparsable)
qed

text \<open>
  C3 as stated (404 when the \<^verbatim>\<open>eventId\<close> is missing) fails: the body \<^verbatim>\<open>{}\<close> has no
  \<^verbatim>\<open>eventId\<close>, and the response is 400.
\<close>

theorem delete_missing_eventId_counterexample:
  "get (Obj []) ''eventId'' = Inr Undefined \<and>
   status_of (fst (DELETE demo_env (store_of [] []) (signed ''{}''))) = Some 400 \<and>
   status_of (fst (DELETE demo_env (store_of [] []) (signed ''{}''))) \<noteq> Some 404"
  by (simp add: DELETE_def signed_def demo_parse_empty_object status_of_def)

section \<open>The team update handler\<close>

lemma set_prop_top:
  assumes "record_fields m = Arr fs" "k \<noteq> ''data''"
  shows "\<exists>m'. set_prop m k v = Inr m' \<and> record_fields m' = Arr fs"
proof -
  from assms(1) obtain mk dk where m: "m = Obj mk" "map_of mk ''data'' = Some (Obj dk)"
    "map_of dk ''fields'' = Some (Arr fs)" by (rule record_fields_Arr)
  have "record_fields (Obj (put mk k v)) = Arr fs"
    using assms(2) m by (simp add: record_fields_def opt_get_def map_of_put)
  with m(1) show ?thesis by simp
qed

lemma copy_data_prop_fields:
  assumes "record_fields m = Arr fs" "record_fields json = Arr us" "k \<noteq> ''fields''"
  shows "\<exists>m'. copy_data_prop json k m = Inr m' \<and> record_fields m' = Arr fs"
proof -
  from assms(1) obtain mk dk where m: "m = Obj mk" "map_of mk ''data'' = Some (Obj dk)"
    "map_of dk ''fields'' = Some (Arr fs)" by (rule record_fields_Arr)
  from assms(2) obtain jk jd where j: "json = Obj jk" "map_of jk ''data'' = Some (Obj jd)"
    "map_of jd ''fields'' = Some (Arr us)" by (rule record_fields_Arr)
  let ?v = "case map_of jd k of None \<Rightarrow> Undefined | Some x \<Rightarrow> x"
  have "copy_data_prop json k m = Inr (Obj (put mk ''data'' (Obj (put dk k ?v))))"
    using m j by (simp add: copy_data_prop_def then_do_def)
  moreover have "record_fields (Obj (put mk ''data'' (Obj (put dk k ?v)))) = Arr fs"
    using assms(3) m by (simp add: record_fields_def opt_get_def map_of_put)
  ultimately show ?thesis by simp
qed

lemma set_metadata_fields:
  assumes "record_fields merged = Arr fs" "record_fields json = Arr us" "\<not> nullish prev"
  shows "\<exists>final. set_metadata json prev merged = Inr final \<and> record_fields final = Arr fs"
proof -
  from assms(2) obtain jk jd where j: "json = Obj jk" by (rule record_fields_Arr)
  have gj: "get json k = Inr (opt_get json k)" for k using j by (simp add: opt_get_def)
  have gp: "get prev ''data'' = Inr (opt_get prev ''data'')" using assms(3) by (rule get_present)
  from set_prop_top[OF assms(1), of "''previous-team-state''"] obtain m1 where
    m1: "set_prop merged ''previous-team-state''
           (js_or (opt_get (opt_get prev ''data'') ''submissionId'')
                  (opt_get (opt_get prev ''data'') ''responseId'')) = Inr m1"
        "record_fields m1 = Arr fs" by fastforce
  from set_prop_top[OF m1(2), of "''eventId''"] obtain m2 where
    m2: "set_prop m1 ''eventId'' (opt_get json ''eventId'') = Inr m2" "record_fields m2 = Arr fs"
    by fastforce
  from set_prop_top[OF m2(2), of "''createdAt''"] obtain m3 where
    m3: "set_prop m2 ''createdAt'' (opt_get json ''createdAt'') = Inr m3" "record_fields m3 = Arr fs"
    by fastforce
  from copy_data_prop_fields[OF m3(2) assms(2), of "''responseId''"] obtain m4 where
    m4: "copy_data_prop json ''responseId'' m3 = Inr m4" "record_fields m4 = Arr fs" by fastforce
  from copy_data_prop_fields[OF m4(2) assms(2), of "''submissionId''"] obtain m5 where
    m5: "copy_data_prop json ''submissionId'' m4 = Inr m5" "record_fields m5 = Arr fs" by fastforce
  from copy_data_prop_fields[OF m5(2) assms(2), of "''respondentId''"] obtain m6 where
    m6: "copy_data_prop json ''respondentId'' m5 = Inr m6" "record_fields m6 = Arr fs" by fastforce
  from copy_data_prop_fields[OF m6(2) assms(2), of "''formId''"] obtain m7 where
    m7: "copy_data_prop json ''formId'' m6 = Inr m7" "record_fields m7 = Arr fs" by fastforce
  from copy_data_prop_fields[OF m7(2) assms(2), of "''formName''"] obtain m8 where
    m8: "copy_data_prop json ''formName'' m7 = Inr m8" "record_fields m8 = Arr fs" by fastforce
  from copy_data_prop_fields[OF m8(2) assms(2), of "''createdAt''"] obtain m9 where
    m9: "copy_data_prop json ''createdAt'' m8 = Inr m9" "record_fields m9 = Arr fs" by fastforce
  have "set_metadata json prev merged = Inr m9"
    by (simp add: set_metadata_def then_do_def gj gp m1 m2 m3 m4 m5 m6 m7 m8 m9)
  with m9(2) show ?thesis by simp
qed

lemma teams_update_reaches_lookup:
  assumes "isValidSignature env (text_of rq) (received_signature rq)"
    and "JSON_parse env (text_of rq) = Some json"
    and "record_fields json = Arr us"
    and "findFieldByLabel (Arr us) ''Email of person filling this form'' = Inr ef"
    and "truthy (opt_get ef ''value'')"
    and "findFieldByLabel (Arr us) ''Phone number of person filling this form'' = Inr pf"
    and "truthy (opt_get pf ''value'')"
    and "findFieldByLabel (Arr us) ''Team ID'' = Inr tf"
    and "truthy (opt_get tf ''value'')"
    and "js_String (opt_get tf ''value'') = Inr pid"
    and "up st"
  shows "POST_teams_update env st rq =
     after_lookup env st json (Arr us) (normalizeEmail (opt_get ef ''value''))
       (normalizePhone (opt_get pf ''value''))
       (find_previous env pid (lists st ''enrolment-participants-teams''))"
proof -
  from assms(3) obtain mk dk where m: "json = Obj mk" "map_of mk ''data'' = Some (Obj dk)"
    "map_of dk ''fields'' = Some (Arr us)" by (rule record_fields_Arr)
  let ?e = "normalizeEmail (opt_get ef ''value'')"
  let ?p = "normalizePhone (opt_get pf ''value'')"
  let ?prev = "find_previous env pid (lists st ''enrolment-participants-teams'')"
  have "teams_update_try env st json =
     (if \<not> truthy ?prev then (Inr (plain 404 ''Previous record not found''), st)
      else then_try st (found_log_line ?prev)
             (\<lambda>u. authorize_and_merge env st json (Arr us) ?e ?p ?prev))"
    unfolding teams_update_try_def
    by (simp add: m then_try_def assms(4-11) lrange_def Let_def del: findFieldByLabel.simps)
  then show ?thesis
    unfolding POST_teams_update_def after_lookup_def
    by (simp add: assms(1,2) Let_def)
qed

lemma found_log_line_ok:
  "truthy prev \<Longrightarrow> convertible (previous_id prev) \<Longrightarrow> found_log_line prev = Inr ()"
  by (cases prev)
     (auto simp: found_log_line_def then_do_def convertible_def previous_id_def opt_get_def
        split: sum.splits)

lemma isAuthorized_mem:
  "isAuthorized pairs e p = (\<lparr>email = e, phone = p\<rparr> \<in> set pairs)"
  by (induction pairs) (auto simp: isAuthorized_def)

lemma after_lookup_rejects:
  "truthy prev \<Longrightarrow> convertible (previous_id prev) \<Longrightarrow>
   extractTeamMemberPairs prev = Inr pairs \<Longrightarrow> \<not> isAuthorized pairs e p \<Longrightarrow>
   after_lookup env st json flds e p prev =
     (plain 403 ''Unauthorized: email-phone pair not found in team members'', st)"
  by (simp add: after_lookup_def found_log_line_ok then_try_def authorize_and_merge_def)

lemma after_lookup_accepts:
  "truthy prev \<Longrightarrow> convertible (previous_id prev) \<Longrightarrow>
   extractTeamMemberPairs prev = Inr pairs \<Longrightarrow> isAuthorized pairs e p \<Longrightarrow>
   status (fst (after_lookup env st json flds e p prev)) = 200 \<or>
   status (fst (after_lookup env st json flds e p prev)) = 500"
  by (simp add: after_lookup_def found_log_line_ok then_try_def authorize_and_merge_def
      handleError_def ok_response_def split: sum.splits)

lemma after_lookup_pushes:
  "truthy prev \<Longrightarrow> convertible (previous_id prev) \<Longrightarrow>
   extractTeamMemberPairs prev = Inr pairs \<Longrightarrow> isAuthorized pairs e p \<Longrightarrow>
   merged_record env json flds prev = Inr final \<Longrightarrow> up st \<Longrightarrow>
   lists (snd (after_lookup env st json flds e p prev)) ''enrolment-participants-teams'' =
     stringified final # lists st ''enrolment-participants-teams''"
  by (simp add: after_lookup_def found_log_line_ok then_try_def authorize_and_merge_def
      lpush_def split: sum.splits)

text \<open>
  C4. A team update that reaches the authorisation step (signature, body,
  submitter fields and Team ID in order, the Team ID converted to a string, the
  previous record found and logged, its pairs extracted) is answered 403 exactly
  when the submitter's normalised (email, phone) pair is not among the
  team-member pairs of the previous record; the store is then unchanged. A
  previous record without pairs is always answered 403.
\<close>

theorem authorization_by_team_pair:
  assumes "isValidSignature env (text_of rq) (received_signature rq)"
    and "JSON_parse env (text_of rq) = Some json"
    and "record_fields json = Arr us"
    and "findFieldByLabel (Arr us) ''Email of person filling this form'' = Inr ef"
    and "truthy (opt_get ef ''value'')"
    and "findFieldByLabel (Arr us) ''Phone number of person filling this form'' = Inr pf"
    and "truthy (opt_get pf ''value'')"
    and "findFieldByLabel (Arr us) ''Team ID'' = Inr tf"
    and "truthy (opt_get tf ''value'')"
    and "js_String (opt_get tf ''value'') = Inr pid"
    and "up st"
    and "find_previous env pid (lists st ''enrolment-participants-teams'') = prev"
    and "truthy prev"
    and "convertible (previous_id prev)"
    and "extractTeamMemberPairs prev = Inr pairs"
    and "submitter = \<lparr>email = normalizeEmail (opt_get ef ''value''),
                      phone = normalizePhone (opt_get pf ''value'')\<rparr>"
  shows "(status (fst (POST_teams_update env st rq)) = 403) = (submitter \<notin> set pairs) \<and>
         (submitter \<notin> set pairs \<longrightarrow>
            POST_teams_update env st rq =
              (plain 403 ''Unauthorized: email-phone pair not found in team members'', st)) \<and>
         (pairs = [] \<longrightarrow> status (fst (POST_teams_update env st rq)) = 403)"
proof -
  let ?e = "normalizeEmail (opt_get ef ''value'')"
  let ?p = "normalizePhone (opt_get pf ''value'')"
  have r: "POST_teams_update env st rq = after_lookup env st json (Arr us) ?e ?p prev"
    using teams_update_reaches_lookup[OF assms(1-11)] assms(12) by simp
  have m: "isAuthorized pairs ?e ?p = (submitter \<in> set pairs)"
    by (simp add: isAuthorized_mem assms(16))
  have no: "POST_teams_update env st rq =
              (plain 403 ''Unauthorized: email-phone pair not found in team members'', st)"
    if "submitter \<notin> set pairs"
    using that after_lookup_rejects[OF assms(13-15), of ?e ?p env st json "Arr us"]
    by (simp add: r m)
  have yes: "status (fst (POST_teams_update env st rq)) \<noteq> 403" if "submitter \<in> set pairs"
    using that after_lookup_accepts[OF assms(13-15), of ?e ?p env st json "Arr us"]
    by (auto simp: r m)
  have s: "status (fst (POST_teams_update env st rq)) = 403" if "submitter \<notin> set pairs"
    using no[OF that] by (simp add: plain_def)
  from no yes s show ?thesis by auto
qed

lemma record_if_match_Some:
  "record_if_match env pid raw = Inr (Some rec) \<Longrightarrow>
   parse_item env raw = Inr rec \<and>
   (opt_get (opt_get rec ''data'') ''submissionId'' = Str pid \<or>
    opt_get (opt_get rec ''data'') ''responseId'' = Str pid)"
  by (auto simp: record_if_match_def then_do_def opt_get_def split: sum.splits if_splits
      dest!: strict_eq_eq)

lemma find_previous_no_strings:
  "\<forall>raw\<in>set items. \<forall>rec. parse_item env raw = Inr rec \<longrightarrow>
      \<not> is_string (opt_get (opt_get rec ''data'') ''submissionId'') \<and>
      \<not> is_string (opt_get (opt_get rec ''data'') ''responseId'') \<Longrightarrow>
   find_previous env pid items = Null"
proof (induction items)
  case Nil
  then show ?case by simp
next
  case (Cons raw rest)
  have "record_if_match env pid raw \<noteq> Inr (Some rec)" for rec
  proof
    assume "record_if_match env pid raw = Inr (Some rec)"
    from record_if_match_Some[OF this] Cons.prems show False
      by (auto simp: is_string_def)
  qed
  with Cons show ?case by (simp split: sum.splits option.splits)
qed

text \<open>
  C10. The lookup compares the string \<^verbatim>\<open>String(teamId)\<close> with strict equality. When
  no stored record has a string as \<^verbatim>\<open>data.submissionId\<close> or \<^verbatim>\<open>data.responseId\<close>,
  nothing matches, whatever string the Team ID converts to, and a request that
  reaches the lookup is answered 404.
\<close>

theorem lookup_is_type_sensitive:
  assumes "isValidSignature env (text_of rq) (received_signature rq)"
    and "JSON_parse env (text_of rq) = Some json"
    and "record_fields json = Arr us"
    and "findFieldByLabel (Arr us) ''Email of person filling this form'' = Inr ef"
    and "truthy (opt_get ef ''value'')"
    and "findFieldByLabel (Arr us) ''Phone number of person filling this form'' = Inr pf"
    and "truthy (opt_get pf ''value'')"
    and "findFieldByLabel (Arr us) ''Team ID'' = Inr tf"
    and "truthy (opt_get tf ''value'')"
    and "js_String (opt_get tf ''value'') = Inr pid"
    and "up st"
    and "\<forall>raw\<in>set (lists st ''enrolment-participants-teams''). \<forall>rec.
           parse_item env raw = Inr rec \<longrightarrow>
             \<not> is_string (opt_get (opt_get rec ''data'') ''submissionId'') \<and>
             \<not> is_string (opt_get (opt_get rec ''data'') ''responseId'')"
  shows "find_previous env pid (lists st ''enrolment-participants-teams'') = Null \<and>
         POST_teams_update env st rq = (plain 404 ''Previous record not found'', st)"
proof -
  have n: "find_previous env pid (lists st ''enrolment-participants-teams'') = Null"
    using assms(12) by (rule find_previous_no_strings)
  with teams_update_reaches_lookup[OF assms(1-11)] show ?thesis
    by (simp add: after_lookup_def)
qed

lemma strict_eq_sym: "strict_eq a b = strict_eq b a"
  by (cases a; cases b) auto

lemma merge_at_turn:
  assumes "record_fields m = Arr fs" "all_present fs" "all_present (us1 @ u # us2)"
  obtains m1 fs1 m2 fs2 merged fs' where
    "merge_loop m us1 = Inr m1" "record_fields m1 = Arr fs1" "keeps fs fs1"
    "\<forall>p<length fs. (\<forall>v\<in>set us1. \<not> strict_eq (label_of (fs ! p)) (label_of v)) \<longrightarrow>
        fs1 ! p = fs ! p"
    "\<forall>l. \<not> has_label l fs \<and> (\<forall>v\<in>set us1. \<not> strict_eq (label_of v) l) \<longrightarrow> \<not> has_label l fs1"
    "merge_step m1 u = Inr m2" "record_fields m2 = Arr fs2" "keeps fs1 fs2"
    "merge_loop m2 us2 = Inr merged" "record_fields merged = Arr fs'" "keeps fs2 fs'"
    "\<forall>p<length fs2. (\<forall>v\<in>set us2. \<not> strict_eq (label_of (fs2 ! p)) (label_of v)) \<longrightarrow>
        fs' ! p = fs2 ! p"
    "merge_loop m (us1 @ u # us2) = Inr merged"
proof -
  from assms(3) have p1: "all_present us1" and pu: "\<not> nullish u" and p2: "all_present us2"
    by (simp_all add: all_present_def)
  from merge_loop_frame[OF assms(1,2) p1] obtain m1 fs1 where
    a: "merge_loop m us1 = Inr m1" "record_fields m1 = Arr fs1" "keeps fs fs1"
       "\<forall>p<length fs. (\<forall>v\<in>set us1. \<not> strict_eq (label_of (fs ! p)) (label_of v)) \<longrightarrow>
          fs1 ! p = fs ! p"
       "\<forall>l. \<not> has_label l fs \<and> (\<forall>v\<in>set us1. \<not> strict_eq (label_of v) l) \<longrightarrow>
          \<not> has_label l fs1"
    by blast
  from a(3) have q1: "all_present fs1" by (simp add: keeps_nth)
  from merge_step_frame[OF a(2) q1 pu] obtain m2 fs2 where
    b: "merge_step m1 u = Inr m2" "record_fields m2 = Arr fs2" "keeps fs1 fs2" by blast
  from b(3) have q2: "all_present fs2" by (simp add: keeps_nth)
  from merge_loop_frame[OF b(2) q2 p2] obtain merged fs' where
    c: "merge_loop m2 us2 = Inr merged" "record_fields merged = Arr fs'" "keeps fs2 fs'"
       "\<forall>p<length fs2. (\<forall>v\<in>set us2. \<not> strict_eq (label_of (fs2 ! p)) (label_of v)) \<longrightarrow>
          fs' ! p = fs2 ! p"
    by blast
  have "merge_loop m (us1 @ u # us2) = Inr merged"
    using a(1) b(1) c(1) by (simp add: merge_loop_append then_do_def)
  with a b c that show ?thesis by blast
qed

lemma pushed_record:
  assumes "authorised_update env st rq json us ef pf tf pid prev pairs"
    and "deep_copy env prev = Inr prev"
    and "merge_loop prev us = Inr merged"
    and "record_fields merged = Arr fs'"
  shows "\<exists>final. set_metadata json prev merged = Inr final \<and> record_fields final = Arr fs' \<and>
           lists (snd (POST_teams_update env st rq)) ''enrolment-participants-teams'' =
             stringified final # lists st ''enrolment-participants-teams''"
proof -
  note a = assms(1)[unfolded authorised_update_def]
  let ?e = "normalizeEmail (opt_get ef ''value'')"
  let ?p = "normalizePhone (opt_get pf ''value'')"
  have r: "POST_teams_update env st rq = after_lookup env st json (Arr us) ?e ?p prev"
    using a teams_update_reaches_lookup[of env rq json us ef pf tf pid st] by simp
  from a have np: "\<not> nullish prev" by (cases prev) auto
  from a have rf: "record_fields json = Arr us" by simp
  from set_metadata_fields[OF assms(4) rf np] obtain final where
    f: "set_metadata json prev merged = Inr final" "record_fields final = Arr fs'" by blast
  have mr: "merged_record env json (Arr us) prev = Inr final"
    by (simp add: merged_record_def then_do_def assms(2,3) f(1))
  have au: "isAuthorized pairs ?e ?p" using a by (simp add: isAuthorized_mem)
  have "lists (snd (after_lookup env st json (Arr us) ?e ?p prev)) ''enrolment-participants-teams'' =
          stringified final # lists st ''enrolment-participants-teams''"
    using a au mr by (intro after_lookup_pushes[where pairs = pairs]) simp_all
  with f r show ?thesis by simp
qed

lemma override_in_loop:
  assumes "record_fields prev = Arr fs" "all_present fs" "all_present (us1 @ u # us2)"
    "truthy (label_of u)" "first_with_label (label_of u) fs i"
  obtains m1 fs1 kvs m2 merged fs' where
    "merge_loop prev us1 = Inr m1" "record_fields m1 = Arr fs1" "fs1 ! i = Obj kvs"
    "merge_step m1 u = Inr m2" "record_fields m2 = Arr (fs1[i := Obj (overridden kvs u)])"
    "(\<forall>v\<in>set us1. \<not> strict_eq (label_of v) (label_of u)) \<longrightarrow> fs1 ! i = fs ! i"
    "merge_loop m2 us2 = Inr merged" "record_fields merged = Arr fs'"
    "(\<forall>v\<in>set us2. \<not> strict_eq (label_of v) (label_of u)) \<longrightarrow>
       fs' ! i = Obj (overridden kvs u)"
    "merge_loop prev (us1 @ u # us2) = Inr merged"
proof (rule merge_at_turn[OF assms(1-3)])
  fix m1 fs1 m2 fs2 merged fs'
  assume t1: "merge_loop prev us1 = Inr m1" and t2: "record_fields m1 = Arr fs1"
    and t3: "keeps fs fs1"
    and t4: "\<forall>p<length fs. (\<forall>v\<in>set us1. \<not> strict_eq (label_of (fs ! p)) (label_of v)) \<longrightarrow>
        fs1 ! p = fs ! p"
    and t5: "merge_step m1 u = Inr m2" and t6: "record_fields m2 = Arr fs2"
    and t7: "merge_loop m2 us2 = Inr merged" and t8: "record_fields merged = Arr fs'"
    and t9: "\<forall>p<length fs2. (\<forall>v\<in>set us2. \<not> strict_eq (label_of (fs2 ! p)) (label_of v)) \<longrightarrow>
        fs' ! p = fs2 ! p"
    and t10: "merge_loop prev (us1 @ u # us2) = Inr merged"
  note i = assms(5)
  from t3 have q1: "all_present fs1" by (simp add: keeps_nth)
  have nu: "\<not> nullish u" using assms(3) by (simp add: all_present_def)
  have i1: "first_with_label (label_of u) fs1 i" using t3 i by (rule keeps_first_with_label)
  from merge_step_override[OF t2 q1 nu assms(4) i1] obtain kvs m2' where
    k0: "fs1 ! i = Obj kvs" "merge_step m1 u = Inr m2'"
        "record_fields m2' = Arr (fs1[i := Obj (overridden kvs u)])"
    by (elim exE conjE)
  from k0(2) t5 have "m2' = m2" by simp
  with k0(3) t6 have k2: "fs2 = fs1[i := Obj (overridden kvs u)]" by simp
  note k1 = k0(1)
  let ?f' = "Obj (overridden kvs u)"
  have il: "i < length fs" and ie: "strict_eq (label_of (fs ! i)) (label_of u)"
    using i by (simp_all add: first_with_label_def)
  have il1: "i < length fs1" using i1 by (simp add: first_with_label_def)
  have before: "(\<forall>v\<in>set us1. \<not> strict_eq (label_of v) (label_of u)) \<longrightarrow> fs1 ! i = fs ! i"
  proof
    assume u1: "\<forall>v\<in>set us1. \<not> strict_eq (label_of v) (label_of u)"
    from ie have "label_of (fs ! i) = label_of u" by (rule strict_eq_eq)
    with u1 have "\<forall>v\<in>set us1. \<not> strict_eq (label_of (fs ! i)) (label_of v)"
      by (simp add: strict_eq_sym)
    with t4 il show "fs1 ! i = fs ! i" by simp
  qed
  have after: "(\<forall>v\<in>set us2. \<not> strict_eq (label_of v) (label_of u)) \<longrightarrow> fs' ! i = ?f'"
  proof
    assume u2: "\<forall>v\<in>set us2. \<not> strict_eq (label_of v) (label_of u)"
    from i1 have "strict_eq (label_of (fs1 ! i)) (label_of u)"
      by (simp add: first_with_label_def)
    then have "label_of (fs1 ! i) = label_of u" by (rule strict_eq_eq)
    then have "label_of (fs2 ! i) = label_of u"
      using k1 k2 il1 by (simp add: label_of_overridden)
    with u2 have "\<forall>v\<in>set us2. \<not> strict_eq (label_of (fs2 ! i)) (label_of v)"
      by (simp add: strict_eq_sym)
    moreover have "i < length fs2" using k2 il1 by simp
    ultimately have "fs' ! i = fs2 ! i" using t9 by simp
    with k2 il1 show "fs' ! i = ?f'" by simp
  qed
  have m2f: "record_fields m2 = Arr (fs1[i := ?f'])" using t6 k2 by simp
  show thesis by (rule that[OF t1 t2 k1 t5 m2f before t7 t8 after t10])
qed

text \<open>
  C5. In an authorised team update
  (the deep copy of the previous record gives the record back, and no field of
  either list is null or undefined),
  let \<open>u\<close> be an update field whose (truthy)
  label is the label of a field of the previous record, and \<open>i\<close> the first such
  field. When the loop comes to \<open>u\<close>, it changes field \<open>i\<close> of the merged record
  and no other: the value becomes the update's value unless that is null,
  undefined or the empty string, in which case the value stays; the key becomes
  the update's key in every case; type and options become the update's when it
  supplies one (a truthy one) and stay otherwise; every other property stays.
  Until then field \<open>i\<close> is that of the previous record unless an earlier update
  field has the same label, and it stays as \<open>u\<close> left it unless a later one has.
  The record with these fields is the one the handler pushes.
\<close>

theorem merge_overrides_matching_field:
  assumes "authorised_update env st rq json us ef pf tf pid prev pairs"
    and "deep_copy env prev = Inr prev"
    and "record_fields prev = Arr fs"
    and "all_present fs"
    and "all_present us"
    and "us = us1 @ u # us2"
    and "truthy (label_of u)"
    and "has_label (label_of u) fs"
  shows "\<exists>i m1 fs1 m2 f' merged fs' final.
     first_with_label (label_of u) fs i \<and>
     merge_loop prev us1 = Inr m1 \<and> record_fields m1 = Arr fs1 \<and>
     merge_step m1 u = Inr m2 \<and> record_fields m2 = Arr (fs1[i := f']) \<and>
     opt_get f' ''value'' =
       (if opt_get u ''value'' \<in> {Null, Undefined, Str []} then opt_get (fs1 ! i) ''value''
        else opt_get u ''value'') \<and>
     opt_get f' ''key'' = opt_get u ''key'' \<and>
     opt_get f' ''type'' =
       (if truthy (opt_get u ''type'') then opt_get u ''type'' else opt_get (fs1 ! i) ''type'') \<and>
     opt_get f' ''options'' =
       (if truthy (opt_get u ''options'') then opt_get u ''options''
        else opt_get (fs1 ! i) ''options'') \<and>
     (\<forall>k. k \<notin> {''value'', ''key'', ''type'', ''options''} \<longrightarrow>
        opt_get f' k = opt_get (fs1 ! i) k) \<and>
     ((\<forall>v\<in>set us1. \<not> strict_eq (label_of v) (label_of u)) \<longrightarrow> fs1 ! i = fs ! i) \<and>
     merge_loop m2 us2 = Inr merged \<and> record_fields merged = Arr fs' \<and>
     ((\<forall>v\<in>set us2. \<not> strict_eq (label_of v) (label_of u)) \<longrightarrow> fs' ! i = f') \<and>
     set_metadata json prev merged = Inr final \<and> record_fields final = Arr fs' \<and>
     lists (snd (POST_teams_update env st rq)) ''enrolment-participants-teams'' =
       stringified final # lists st ''enrolment-participants-teams''"
proof -
  from assms(8) obtain i where i: "first_with_label (label_of u) fs i"
    using has_label_first by blast
  have pu: "all_present (us1 @ u # us2)" using assms(5,6) by simp
  show ?thesis
  proof (rule override_in_loop[OF assms(3,4) pu assms(7) i])
    fix m1 fs1 kvs m2 merged fs'
    assume t1: "merge_loop prev us1 = Inr m1" and t2: "record_fields m1 = Arr fs1"
      and k1: "fs1 ! i = Obj kvs"
      and t5: "merge_step m1 u = Inr m2"
      and m2f: "record_fields m2 = Arr (fs1[i := Obj (overridden kvs u)])"
      and before: "(\<forall>v\<in>set us1. \<not> strict_eq (label_of v) (label_of u)) \<longrightarrow> fs1 ! i = fs ! i"
      and t7: "merge_loop m2 us2 = Inr merged" and t8: "record_fields merged = Arr fs'"
      and after: "(\<forall>v\<in>set us2. \<not> strict_eq (label_of v) (label_of u)) \<longrightarrow>
         fs' ! i = Obj (overridden kvs u)"
      and t10: "merge_loop prev (us1 @ u # us2) = Inr merged"
    let ?f' = "Obj (overridden kvs u)"
    have ml: "merge_loop prev us = Inr merged" using t10 assms(6) by simp
    from pushed_record[OF assms(1,2) ml t8] obtain final where
      f: "set_metadata json prev merged = Inr final \<and> record_fields final = Arr fs' \<and>
          lists (snd (POST_teams_update env st rq)) ''enrolment-participants-teams'' =
            stringified final # lists st ''enrolment-participants-teams''"
      ..
    have props: "opt_get ?f' ''value'' =
         (if opt_get u ''value'' \<in> {Null, Undefined, Str []} then opt_get (fs1 ! i) ''value''
          else opt_get u ''value'') \<and>
       opt_get ?f' ''key'' = opt_get u ''key'' \<and>
       opt_get ?f' ''type'' =
         (if truthy (opt_get u ''type'') then opt_get u ''type'' else opt_get (fs1 ! i) ''type'') \<and>
       opt_get ?f' ''options'' =
         (if truthy (opt_get u ''options'') then opt_get u ''options''
          else opt_get (fs1 ! i) ''options'') \<and>
       (\<forall>k. k \<notin> {''value'', ''key'', ''type'', ''options''} \<longrightarrow>
          opt_get ?f' k = opt_get (fs1 ! i) k)"
      unfolding k1 by (intro conjI allI impI overridden_props)
    note p = props[THEN conjunct1] props[THEN conjunct2, THEN conjunct1]
      props[THEN conjunct2, THEN conjunct2, THEN conjunct1]
      props[THEN conjunct2, THEN conjunct2, THEN conjunct2, THEN conjunct1]
      props[THEN conjunct2, THEN conjunct2, THEN conjunct2, THEN conjunct2]
    note g = f[THEN conjunct1] f[THEN conjunct2, THEN conjunct1] f[THEN conjunct2, THEN conjunct2]
    show ?thesis
      apply (rule exI[of _ i], rule exI[of _ m1], rule exI[of _ fs1], rule exI[of _ m2],
             rule exI[of _ ?f'], rule exI[of _ merged], rule exI[of _ fs'], rule exI[of _ final])
      by (intro conjI) (rule i t1 t2 t5 m2f p before t7 t8 after g)+
  qed
qed

text \<open>
  C6, amended. In an authorised team update
  (the deep copy of the previous record gives the record back, and no field of
  either list is null or undefined),
  an update field \<open>u\<close> whose (truthy)
  label is the label of no field of the previous record and of no update field
  before it is appended as it is when the loop comes to it, and the field list
  grows by exactly one. It keeps its place, and stays as it is unless a later
  update field has the same label. The record with these fields is the one the
  handler pushes.
\<close>

theorem merge_appends_new_label:
  assumes "authorised_update env st rq json us ef pf tf pid prev pairs"
    and "deep_copy env prev = Inr prev"
    and "record_fields prev = Arr fs"
    and "all_present fs"
    and "all_present us"
    and "us = us1 @ u # us2"
    and "truthy (label_of u)"
    and "\<not> has_label (label_of u) fs"
    and "\<forall>v\<in>set us1. \<not> strict_eq (label_of v) (label_of u)"
  shows "\<exists>m1 fs1 m2 merged fs' final.
     merge_loop prev us1 = Inr m1 \<and> record_fields m1 = Arr fs1 \<and>
     merge_step m1 u = Inr m2 \<and> record_fields m2 = Arr (fs1 @ [u]) \<and>
     length (fs1 @ [u]) = length fs1 + 1 \<and>
     merge_loop m2 us2 = Inr merged \<and> record_fields merged = Arr fs' \<and>
     length fs1 < length fs' \<and>
     ((\<forall>v\<in>set us2. \<not> strict_eq (label_of v) (label_of u)) \<longrightarrow> fs' ! length fs1 = u) \<and>
     set_metadata json prev merged = Inr final \<and> record_fields final = Arr fs' \<and>
     lists (snd (POST_teams_update env st rq)) ''enrolment-participants-teams'' =
       stringified final # lists st ''enrolment-participants-teams''"
proof -
  have pu: "all_present (us1 @ u # us2)" using assms(5,6) by simp
  show ?thesis
  proof (rule merge_at_turn[OF assms(3,4) pu])
    fix m1 fs1 m2 fs2 merged fs'
    assume t1: "merge_loop prev us1 = Inr m1" and t2: "record_fields m1 = Arr fs1"
      and t3: "keeps fs fs1"
      and t4: "\<forall>l. \<not> has_label l fs \<and> (\<forall>v\<in>set us1. \<not> strict_eq (label_of v) l) \<longrightarrow>
          \<not> has_label l fs1"
      and t5: "merge_step m1 u = Inr m2" and t6: "record_fields m2 = Arr fs2"
      and t7: "merge_loop m2 us2 = Inr merged" and t8: "record_fields merged = Arr fs'"
      and t8': "keeps fs2 fs'"
      and t9: "\<forall>p<length fs2. (\<forall>v\<in>set us2. \<not> strict_eq (label_of (fs2 ! p)) (label_of v)) \<longrightarrow>
          fs' ! p = fs2 ! p"
      and t10: "merge_loop prev (us1 @ u # us2) = Inr merged"
    from t3 have q1: "all_present fs1" by (simp add: keeps_nth)
    have nu: "\<not> nullish u" using pu by (simp add: all_present_def)
    from t4 assms(8,9) have n1: "\<not> has_label (label_of u) fs1" by simp
    from merge_step_append[OF t2 q1 nu assms(7) n1] obtain m2' where
      "merge_step m1 u = Inr m2'" "record_fields m2' = Arr (fs1 @ [u])" by (elim exE conjE)
    with t5 t6 have k2: "fs2 = fs1 @ [u]" by simp
    have m2f: "record_fields m2 = Arr (fs1 @ [u])" using t6 k2 by simp
    have len: "length (fs1 @ [u]) = length fs1 + 1" by simp
    have lt: "length fs1 < length fs'" using t8' k2 by (simp add: keeps_nth)
    have after: "(\<forall>v\<in>set us2. \<not> strict_eq (label_of v) (label_of u)) \<longrightarrow> fs' ! length fs1 = u"
    proof
      assume u2: "\<forall>v\<in>set us2. \<not> strict_eq (label_of v) (label_of u)"
      have "fs2 ! length fs1 = u" using k2 by simp
      with u2 have "\<forall>v\<in>set us2. \<not> strict_eq (label_of (fs2 ! length fs1)) (label_of v)"
        by (simp add: strict_eq_sym)
      moreover have "length fs1 < length fs2" using k2 by simp
      ultimately have "fs' ! length fs1 = fs2 ! length fs1" using t9 by simp
      with k2 show "fs' ! length fs1 = u" by simp
    qed
    have ml: "merge_loop prev us = Inr merged" using t10 assms(6) by simp
    from pushed_record[OF assms(1,2) ml t8] obtain final where
      f: "set_metadata json prev merged = Inr final \<and> record_fields final = Arr fs' \<and>
          lists (snd (POST_teams_update env st rq)) ''enrolment-participants-teams'' =
            stringified final # lists st ''enrolment-participants-teams''"
      ..
    note g = f[THEN conjunct1] f[THEN conjunct2, THEN conjunct1] f[THEN conjunct2, THEN conjunct2]
    show ?thesis
      apply (rule exI[of _ m1], rule exI[of _ fs1], rule exI[of _ m2],
             rule exI[of _ merged], rule exI[of _ fs'], rule exI[of _ final])
      by (intro conjI) (rule t1 t2 t5 m2f len t7 t8 lt after g)+
  qed
qed

text \<open>
  C9. In an authorised team update
  (the deep copy of the previous record gives the record back, and no field of
  either list is null or undefined),
  let \<open>u\<close> be the one update field with its
  (truthy) label, let that be the label of the field \<open>i\<close> of the previous record
  (the first with it), and let \<open>u\<close> have no key. Then the key of field \<open>i\<close> of
  the merged record is overwritten all the same: it is undefined, the field is
  serialised as the object without any key property, and the record with this
  field is the one the handler pushes.
\<close>

theorem merge_erases_key:
  assumes "authorised_update env st rq json us ef pf tf pid prev pairs"
    and "deep_copy env prev = Inr prev"
    and "record_fields prev = Arr fs"
    and "all_present fs"
    and "all_present us"
    and "us = us1 @ u # us2"
    and "truthy (label_of u)"
    and "first_with_label (label_of u) fs i"
    and "\<forall>v\<in>set (us1 @ us2). \<not> strict_eq (label_of v) (label_of u)"
    and "opt_get u ''key'' = Undefined"
    and "fs ! i = Obj kvs"
    and "distinct (map fst kvs)"
  shows "\<exists>kvs' merged fs' final.
     merge_loop prev us = Inr merged \<and> record_fields merged = Arr fs' \<and>
     fs' ! i = Obj kvs' \<and>
     opt_get (Obj kvs') ''key'' = Undefined \<and>
     JSON_stringify (Obj kvs') = JSON_stringify (Obj (filter (\<lambda>p. fst p \<noteq> ''key'') kvs')) \<and>
     set_metadata json prev merged = Inr final \<and> record_fields final = Arr fs' \<and>
     lists (snd (POST_teams_update env st rq)) ''enrolment-participants-teams'' =
       stringified final # lists st ''enrolment-participants-teams''"
proof -
  have pu: "all_present (us1 @ u # us2)" using assms(5,6) by simp
  from assms(9) have u1: "\<forall>v\<in>set us1. \<not> strict_eq (label_of v) (label_of u)"
    and u2: "\<forall>v\<in>set us2. \<not> strict_eq (label_of v) (label_of u)" by simp_all
  show ?thesis
  proof (rule override_in_loop[OF assms(3,4) pu assms(7,8)])
    fix m1 fs1 kvs1 m2 merged fs'
    assume k1: "fs1 ! i = Obj kvs1"
      and before: "(\<forall>v\<in>set us1. \<not> strict_eq (label_of v) (label_of u)) \<longrightarrow> fs1 ! i = fs ! i"
      and t8: "record_fields merged = Arr fs'"
      and after: "(\<forall>v\<in>set us2. \<not> strict_eq (label_of v) (label_of u)) \<longrightarrow>
         fs' ! i = Obj (overridden kvs1 u)"
      and t10: "merge_loop prev (us1 @ u # us2) = Inr merged"
    from before u1 k1 assms(11) have kk: "kvs1 = kvs" by simp
    from after u2 kk have fi: "fs' ! i = Obj (overridden kvs u)" by simp
    have ml: "merge_loop prev us = Inr merged" using t10 assms(6) by simp
    have k: "opt_get (Obj (overridden kvs u)) ''key'' = Undefined"
      by (simp add: overridden_props assms(10))
    have "fst ` set (overridden kvs u) \<supseteq> {''key''}"
      by (simp add: overridden_def Let_def fst_set_put)
    with k have mo: "map_of (overridden kvs u) ''key'' = Some Undefined"
      by (cases "map_of (overridden kvs u) ''key''") (auto simp: opt_get_def map_of_eq_None_iff)
    have sm: "stringify_members (overridden kvs u) =
          stringify_members (filter (\<lambda>p. fst p \<noteq> ''key'') (overridden kvs u))"
      using distinct_overridden[OF assms(12)] mo by (rule stringify_members_undefined)
    have js: "JSON_stringify (Obj (overridden kvs u)) =
          JSON_stringify (Obj (filter (\<lambda>p. fst p \<noteq> ''key'') (overridden kvs u)))"
      using sm by simp
    from pushed_record[OF assms(1,2) ml t8] obtain final where
      f: "set_metadata json prev merged = Inr final \<and> record_fields final = Arr fs' \<and>
          lists (snd (POST_teams_update env st rq)) ''enrolment-participants-teams'' =
            stringified final # lists st ''enrolment-participants-teams''"
      ..
    note g = f[THEN conjunct1] f[THEN conjunct2, THEN conjunct1] f[THEN conjunct2, THEN conjunct2]
    show ?thesis
      apply (rule exI[of _ "overridden kvs u"], rule exI[of _ merged], rule exI[of _ fs'],
             rule exI[of _ final])
      by (intro conjI) (rule ml t8 fi k js g)+
  qed
qed


subsection \<open>Conversions that throw\<close>

text \<open>
  An object with a \<^verbatim>\<open>toString\<close> member, and an array that holds one, cannot be
  converted to a string. Such an \<^verbatim>\<open>eventId\<close> makes \<^verbatim>\<open>DELETE\<close> throw at its first
  log line, outside the \<^verbatim>\<open>try\<close>; such a Team ID, or such an identifier of the
  previous record, makes the team update answer 500 before the authorisation.
\<close>

lemma toString_member_not_convertible:
  "js_String (Obj [(''toString'', Num ''1'')]) = Inl TypeError"
  "js_String (Arr [Str ''a'', Obj [(''toString'', Num ''1'')]]) = Inl TypeError"
  "\<not> convertible (Obj [(''toString'', Num ''1'')])"
  by (simp_all add: convertible_def)

lemma delete_unconvertible_eventId:
  assumes "JSON_parse env (text_of rq) = Some b"
    and "get b ''eventId'' = Inr eventId"
    and "truthy eventId"
    and "js_String eventId = Inl e"
  shows "DELETE env st rq = (Inl e, st)"
  using assms by (simp add: DELETE_def)

lemma teams_update_unconvertible_team_id:
  assumes "isValidSignature env (text_of rq) (received_signature rq)"
    and "JSON_parse env (text_of rq) = Some json"
    and "record_fields json = Arr us"
    and "findFieldByLabel (Arr us) ''Email of person filling this form'' = Inr ef"
    and "truthy (opt_get ef ''value'')"
    and "findFieldByLabel (Arr us) ''Phone number of person filling this form'' = Inr pf"
    and "truthy (opt_get pf ''value'')"
    and "findFieldByLabel (Arr us) ''Team ID'' = Inr tf"
    and "truthy (opt_get tf ''value'')"
    and "js_String (opt_get tf ''value'') = Inl e"
  shows "POST_teams_update env st rq = (handleError e, st)"
proof -
  from assms(3) obtain mk dk where m: "json = Obj mk" "map_of mk ''data'' = Some (Obj dk)"
    "map_of dk ''fields'' = Some (Arr us)" by (rule record_fields_Arr)
  have "teams_update_try env st json = (Inl e, st)"
    unfolding teams_update_try_def
    by (simp add: m then_try_def assms(4-10) Let_def del: findFieldByLabel.simps)
  then show ?thesis
    unfolding POST_teams_update_def
    by (simp add: assms(1,2) Let_def)
qed

lemma teams_update_unloggable_previous:
  assumes "isValidSignature env (text_of rq) (received_signature rq)"
    and "JSON_parse env (text_of rq) = Some json"
    and "record_fields json = Arr us"
    and "findFieldByLabel (Arr us) ''Email of person filling this form'' = Inr ef"
    and "truthy (opt_get ef ''value'')"
    and "findFieldByLabel (Arr us) ''Phone number of person filling this form'' = Inr pf"
    and "truthy (opt_get pf ''value'')"
    and "findFieldByLabel (Arr us) ''Team ID'' = Inr tf"
    and "truthy (opt_get tf ''value'')"
    and "js_String (opt_get tf ''value'') = Inr pid"
    and "up st"
    and "find_previous env pid (lists st ''enrolment-participants-teams'') = prev"
    and "truthy prev"
    and "found_log_line prev = Inl e"
  shows "POST_teams_update env st rq = (handleError e, st)"
  unfolding teams_update_reaches_lookup[OF assms(1-11)] assms(12)
  using assms(13,14) by (simp add: after_lookup_def then_try_def)


section \<open>Examples\<close>


lemmas example_defs = json_text_def spaced_body_def quote_def quote_char_def
  prior_record_def update_payload_def numeric_record_def numeric_update_def
  stranger_payload_def repeat_payload_def unloggable_payload_def
  prior_fields_def update_fields_def form_fields_def stranger_fields_def field_def
  empty_update_def keyless_update_def new_update_def repeated_update_def

lemma demo_parse_not_json: "JSON_parse demo_env ''not json'' = None"
  by (simp add: demo_env_def documents_def example_defs)

lemma demo_parse_prior: "JSON_parse demo_env (json_text prior_record) = Some prior_record"
  by (simp add: demo_env_def documents_def example_defs)

lemma demo_parse_update: "JSON_parse demo_env (json_text update_payload) = Some update_payload"
  by (simp add: demo_env_def documents_def example_defs)

lemma demo_parse_stranger: "JSON_parse demo_env (json_text stranger_payload) = Some stranger_payload"
  by (simp add: demo_env_def documents_def example_defs)

lemma demo_parse_numeric_record:
  "JSON_parse demo_env (json_text numeric_record) = Some numeric_record"
  by (simp add: demo_env_def documents_def example_defs)

lemma demo_parse_numeric_update:
  "JSON_parse demo_env (json_text numeric_update) = Some numeric_update"
  by (simp add: demo_env_def documents_def example_defs)

lemma prior_pairs:
  "extractTeamMemberPairs prior_record =
     Inr [\<lparr>email = ''a@x.com'', phone = ''111''\<rparr>, \<lparr>email = ''b@y.com'', phone = ''222''\<rparr>]"
  by code_simp

lemma find_prior:
  "find_previous demo_env ''s1'' [Str ''not json'', Str (json_text prior_record)] = prior_record"
  by (simp add: record_if_match_def then_do_def demo_parse_not_json demo_parse_prior)
     (simp add: prior_record_def opt_get_def)

lemma update_fields_found:
  "findFieldByLabel (Arr update_fields) ''Email of person filling this form'' =
     Inr (field ''u1'' ''Email of person filling this form'' (Str ''A@X.COM''))"
  "findFieldByLabel (Arr update_fields) ''Phone number of person filling this form'' =
     Inr (field ''u2'' ''Phone number of person filling this form'' (Str '' 111 ''))"
  "findFieldByLabel (Arr update_fields) ''Team ID'' = Inr (field ''u3'' ''Team ID'' (Str ''s1''))"
  by code_simp+

lemma stranger_fields_found:
  "findFieldByLabel (Arr stranger_fields) ''Email of person filling this form'' =
     Inr (field ''u1'' ''Email of person filling this form'' (Str ''c@z.com''))"
  "findFieldByLabel (Arr stranger_fields) ''Phone number of person filling this form'' =
     Inr (field ''u2'' ''Phone number of person filling this form'' (Str ''333''))"
  "findFieldByLabel (Arr stranger_fields) ''Team ID'' = Inr (field ''u3'' ''Team ID'' (Str ''s1''))"
  by code_simp+

lemma field_value: "opt_get (field k l v) ''value'' = v"
  by (simp add: field_def opt_get_def)

lemma prior_loggable: "convertible (previous_id prior_record)"
  by code_simp

lemma prior_truthy: "truthy prior_record"
  by (simp add: prior_record_def)

lemma submitter_normalised:
  "\<lparr>email = normalizeEmail (Str ''A@X.COM''), phone = normalizePhone (Str '' 111 '')\<rparr> =
   \<lparr>email = ''a@x.com'', phone = ''111''\<rparr>"
  "\<lparr>email = normalizeEmail (Str ''c@z.com''), phone = normalizePhone (Str ''333'')\<rparr> =
   \<lparr>email = ''c@z.com'', phone = ''333''\<rparr>"
  by code_simp+

lemma team_store:
  "up (store_of [] [Str ''not json'', Str (json_text prior_record)])"
  "lists (store_of [] [Str ''not json'', Str (json_text prior_record)])
     ''enrolment-participants-teams'' = [Str ''not json'', Str (json_text prior_record)]"
  by (simp_all add: store_of_def)

lemma signed_text: "text_of (signed b) = b"
  by (simp add: signed_def)

lemma demo_signed_text:
  "isValidSignature demo_env (text_of (signed b)) (received_signature (signed b))"
  using demo_signed[of b] by (simp add: signed_def)

text \<open>The example update passes every check, with the first member as submitter.\<close>

lemma update_is_authorised:
  "authorised_update demo_env (store_of [] [Str ''not json'', Str (json_text prior_record)])
     (signed (json_text update_payload)) update_payload update_fields
     (field ''u1'' ''Email of person filling this form'' (Str ''A@X.COM''))
     (field ''u2'' ''Phone number of person filling this form'' (Str '' 111 ''))
     (field ''u3'' ''Team ID'' (Str ''s1'')) ''s1'' prior_record
     [\<lparr>email = ''a@x.com'', phone = ''111''\<rparr>, \<lparr>email = ''b@y.com'', phone = ''222''\<rparr>]"
  unfolding authorised_update_def
proof (intro conjI)
  show "record_fields update_payload = Arr update_fields"
    by (simp add: record_fields_def update_payload_def opt_get_def)
  show "find_previous demo_env ''s1''
          (lists (store_of [] [Str ''not json'', Str (json_text prior_record)])
             ''enrolment-participants-teams'') = prior_record"
    by (simp only: team_store find_prior)
  show "\<lparr>email = normalizeEmail (opt_get (field ''u1'' ''Email of person filling this form''
                     (Str ''A@X.COM'')) ''value''),
         phone = normalizePhone (opt_get (field ''u2''
                     ''Phone number of person filling this form'' (Str '' 111 '')) ''value'')\<rparr>
        \<in> set [\<lparr>email = ''a@x.com'', phone = ''111''\<rparr>, \<lparr>email = ''b@y.com'', phone = ''222''\<rparr>]"
    by (simp only: field_value submitter_normalised) simp
qed (simp_all add: demo_signed signed_text demo_parse_update update_fields_found
       field_value team_store prior_truthy prior_loggable prior_pairs
       del: findFieldByLabel.simps)

lemma stringify_text: "v \<noteq> Undefined \<Longrightarrow> JSON_stringify v = Some (json_text v)"
  by (cases v) (simp_all add: json_text_def)

lemma prior_copy: "deep_copy demo_env prior_record = Inr prior_record"
proof -
  have "JSON_stringify prior_record = Some (json_text prior_record)"
    by (rule stringify_text) (simp add: prior_record_def)
  then show ?thesis by (simp add: deep_copy_def demo_parse_prior)
qed

lemma prior_has_fields: "record_fields prior_record = Arr prior_fields"
  by (simp add: record_fields_def prior_record_def opt_get_def)

lemma examples_present: "all_present prior_fields" "all_present update_fields"
  by code_simp+


text \<open>
  The team has the pairs (a@x.com, 111) and (b@y.com, 222). The submitter
  (A@X.COM, " 111 ") is let through; the submitter (c@z.com, 333) is answered 403.
\<close>

theorem authorization_by_team_pair_witness:
  "status (fst (POST_teams_update demo_env
      (store_of [] [Str ''not json'', Str (json_text prior_record)])
      (signed (json_text update_payload)))) \<noteq> 403 \<and>
   POST_teams_update demo_env
      (store_of [] [Str ''not json'', Str (json_text prior_record)])
      (signed (json_text stranger_payload)) =
     (plain 403 ''Unauthorized: email-phone pair not found in team members'',
      store_of [] [Str ''not json'', Str (json_text prior_record)])"
proof -
  let ?st = "store_of [] [Str ''not json'', Str (json_text prior_record)]"
  have prev: "find_previous demo_env ''s1'' (lists ?st ''enrolment-participants-teams'') =
                prior_record"
    by (simp only: team_store find_prior)
  have tid: "js_String (opt_get (field ''u3'' ''Team ID'' (Str ''s1'')) ''value'') = Inr ''s1''"
    by (simp add: field_value)
  have tr: "truthy (opt_get (field k l (Str (c # cs))) ''value'')" for k l c cs
    by (simp add: field_value)
  have a:
    "(status (fst (POST_teams_update demo_env ?st (signed (json_text update_payload)))) = 403) =
     (\<lparr>email = ''a@x.com'', phone = ''111''\<rparr> \<notin>
        set [\<lparr>email = ''a@x.com'', phone = ''111''\<rparr>, \<lparr>email = ''b@y.com'', phone = ''222''\<rparr>])"
  proof (rule authorization_by_team_pair[THEN conjunct1])
    show "isValidSignature demo_env (text_of (signed (json_text update_payload)))
            (received_signature (signed (json_text update_payload)))"
      by (rule demo_signed_text)
    show "JSON_parse demo_env (text_of (signed (json_text update_payload))) = Some update_payload"
      by (simp add: signed_def demo_parse_update)
    show "record_fields update_payload = Arr update_fields"
      by (simp add: record_fields_def update_payload_def opt_get_def)
    show "findFieldByLabel (Arr update_fields) ''Email of person filling this form'' =
            Inr (field ''u1'' ''Email of person filling this form'' (Str ''A@X.COM''))"
      by (rule update_fields_found)
    show "findFieldByLabel (Arr update_fields) ''Phone number of person filling this form'' =
            Inr (field ''u2'' ''Phone number of person filling this form'' (Str '' 111 ''))"
      by (rule update_fields_found)
    show "findFieldByLabel (Arr update_fields) ''Team ID'' =
            Inr (field ''u3'' ''Team ID'' (Str ''s1''))"
      by (rule update_fields_found)
    show "truthy (opt_get (field ''u1'' ''Email of person filling this form'' (Str ''A@X.COM''))
            ''value'')"
      by (rule tr)
    show "truthy (opt_get (field ''u2'' ''Phone number of person filling this form''
            (Str '' 111 '')) ''value'')"
      by (rule tr)
    show "truthy (opt_get (field ''u3'' ''Team ID'' (Str ''s1'')) ''value'')"
      by (rule tr)
    show "js_String (opt_get (field ''u3'' ''Team ID'' (Str ''s1'')) ''value'') = Inr ''s1''"
      by (rule tid)
    show "up ?st" by (rule team_store)
    show "find_previous demo_env ''s1'' (lists ?st ''enrolment-participants-teams'') =
            prior_record"
      by (rule prev)
    show "truthy prior_record" by (rule prior_truthy)
    show "convertible (previous_id prior_record)" by (rule prior_loggable)
    show "extractTeamMemberPairs prior_record =
            Inr [\<lparr>email = ''a@x.com'', phone = ''111''\<rparr>, \<lparr>email = ''b@y.com'', phone = ''222''\<rparr>]"
      by (rule prior_pairs)
    show "\<lparr>email = ''a@x.com'', phone = ''111''\<rparr> =
          \<lparr>email = normalizeEmail (opt_get (field ''u1'' ''Email of person filling this form''
                     (Str ''A@X.COM'')) ''value''),
           phone = normalizePhone (opt_get (field ''u2''
                     ''Phone number of person filling this form'' (Str '' 111 '')) ''value'')\<rparr>"
      by (simp only: field_value submitter_normalised)
  qed
  have b:
    "\<lparr>email = ''c@z.com'', phone = ''333''\<rparr> \<notin>
        set [\<lparr>email = ''a@x.com'', phone = ''111''\<rparr>, \<lparr>email = ''b@y.com'', phone = ''222''\<rparr>] \<longrightarrow>
     POST_teams_update demo_env ?st (signed (json_text stranger_payload)) =
       (plain 403 ''Unauthorized: email-phone pair not found in team members'', ?st)"
  proof (rule authorization_by_team_pair[THEN conjunct2, THEN conjunct1])
    show "isValidSignature demo_env (text_of (signed (json_text stranger_payload)))
            (received_signature (signed (json_text stranger_payload)))"
      by (rule demo_signed_text)
    show "JSON_parse demo_env (text_of (signed (json_text stranger_payload))) =
            Some stranger_payload"
      by (simp add: signed_def demo_parse_stranger)
    show "record_fields stranger_payload = Arr stranger_fields"
      by (simp add: record_fields_def stranger_payload_def opt_get_def)
    show "findFieldByLabel (Arr stranger_fields) ''Email of person filling this form'' =
            Inr (field ''u1'' ''Email of person filling this form'' (Str ''c@z.com''))"
      by (rule stranger_fields_found)
    show "findFieldByLabel (Arr stranger_fields) ''Phone number of person filling this form'' =
            Inr (field ''u2'' ''Phone number of person filling this form'' (Str ''333''))"
      by (rule stranger_fields_found)
    show "findFieldByLabel (Arr stranger_fields) ''Team ID'' =
            Inr (field ''u3'' ''Team ID'' (Str ''s1''))"
      by (rule stranger_fields_found)
    show "truthy (opt_get (field ''u1'' ''Email of person filling this form'' (Str ''c@z.com''))
            ''value'')"
      by (rule tr)
    show "truthy (opt_get (field ''u2'' ''Phone number of person filling this form''
            (Str ''333'')) ''value'')"
      by (rule tr)
    show "truthy (opt_get (field ''u3'' ''Team ID'' (Str ''s1'')) ''value'')"
      by (rule tr)
    show "js_String (opt_get (field ''u3'' ''Team ID'' (Str ''s1'')) ''value'') = Inr ''s1''"
      by (rule tid)
    show "up ?st" by (rule team_store)
    show "find_previous demo_env ''s1'' (lists ?st ''enrolment-participants-teams'') =
            prior_record"
      by (rule prev)
    show "truthy prior_record" by (rule prior_truthy)
    show "convertible (previous_id prior_record)" by (rule prior_loggable)
    show "extractTeamMemberPairs prior_record =
            Inr [\<lparr>email = ''a@x.com'', phone = ''111''\<rparr>, \<lparr>email = ''b@y.com'', phone = ''222''\<rparr>]"
      by (rule prior_pairs)
    show "\<lparr>email = ''c@z.com'', phone = ''333''\<rparr> =
          \<lparr>email = normalizeEmail (opt_get (field ''u1'' ''Email of person filling this form''
                     (Str ''c@z.com'')) ''value''),
           phone = normalizePhone (opt_get (field ''u2''
                     ''Phone number of person filling this form'' (Str ''333'')) ''value'')\<rparr>"
      by (simp only: field_value submitter_normalised)
  qed
  from a b show ?thesis by simp
qed

lemma numeric_fields_found:
  "findFieldByLabel (record_fields numeric_update) ''Email of person filling this form'' =
     Inr (field ''u1'' ''Email of person filling this form'' (Str ''a@x.com''))"
  "findFieldByLabel (record_fields numeric_update) ''Phone number of person filling this form'' =
     Inr (field ''u2'' ''Phone number of person filling this form'' (Str ''111''))"
  "findFieldByLabel (record_fields numeric_update) ''Team ID'' =
     Inr (field ''u3'' ''Team ID'' (Num ''42''))"
  by code_simp+

text \<open>
  The stored record has the number 42 as both identifiers and the Team ID is the
  number 42, looked up as the string \<^verbatim>\<open>42\<close>: the answer is 404.
\<close>

theorem lookup_is_type_sensitive_witness:
  "opt_get (opt_get numeric_record ''data'') ''submissionId'' = Num ''42'' \<and>
   js_String (opt_get (field ''u3'' ''Team ID'' (Num ''42'')) ''value'') = Inr ''42'' \<and>
   POST_teams_update demo_env (store_of [] [Str (json_text numeric_record)])
      (signed (json_text numeric_update)) =
     (plain 404 ''Previous record not found'', store_of [] [Str (json_text numeric_record)])"
proof -
  let ?st = "store_of [] [Str (json_text numeric_record)]"
  let ?us = "[field ''u1'' ''Email of person filling this form'' (Str ''a@x.com''),
              field ''u2'' ''Phone number of person filling this form'' (Str ''111''),
              field ''u3'' ''Team ID'' (Num ''42'')]"
  have rf: "record_fields numeric_update = Arr ?us"
    by (simp add: record_fields_def numeric_update_def opt_get_def)
  have ids: "opt_get (opt_get numeric_record ''data'') ''submissionId'' = Num ''42''"
    "opt_get (opt_get numeric_record ''data'') ''responseId'' = Num ''42''"
    by (simp_all add: numeric_record_def opt_get_def)
  have str: "js_String (opt_get (field ''u3'' ''Team ID'' (Num ''42'')) ''value'') = Inr ''42''"
    by (simp add: field_value)
  have "POST_teams_update demo_env ?st (signed (json_text numeric_update)) =
          (plain 404 ''Previous record not found'', ?st)"
  proof (rule lookup_is_type_sensitive[THEN conjunct2])
    show "isValidSignature demo_env (text_of (signed (json_text numeric_update)))
            (received_signature (signed (json_text numeric_update)))"
      by (rule demo_signed_text)
    show "JSON_parse demo_env (text_of (signed (json_text numeric_update))) = Some numeric_update"
      by (simp add: signed_def demo_parse_numeric_update)
    show "record_fields numeric_update = Arr ?us" by (rule rf)
    show "findFieldByLabel (Arr ?us) ''Email of person filling this form'' =
            Inr (field ''u1'' ''Email of person filling this form'' (Str ''a@x.com''))"
      using numeric_fields_found(1) by (simp only: rf)
    show "findFieldByLabel (Arr ?us) ''Phone number of person filling this form'' =
            Inr (field ''u2'' ''Phone number of person filling this form'' (Str ''111''))"
      using numeric_fields_found(2) by (simp only: rf)
    show "findFieldByLabel (Arr ?us) ''Team ID'' = Inr (field ''u3'' ''Team ID'' (Num ''42''))"
      using numeric_fields_found(3) by (simp only: rf)
    show "truthy (opt_get (field ''u1'' ''Email of person filling this form'' (Str ''a@x.com''))
            ''value'')"
      by (simp add: field_value)
    show "truthy (opt_get (field ''u2'' ''Phone number of person filling this form''
            (Str ''111'')) ''value'')"
      by (simp add: field_value)
    show "truthy (opt_get (field ''u3'' ''Team ID'' (Num ''42'')) ''value'')"
      by (simp add: field_value)
    show "js_String (opt_get (field ''u3'' ''Team ID'' (Num ''42'')) ''value'') = Inr ''42''"
      by (rule str)
    show "up ?st" by (simp add: store_of_def)
    show "\<forall>raw\<in>set (lists ?st ''enrolment-participants-teams''). \<forall>rec.
           parse_item demo_env raw = Inr rec \<longrightarrow>
             \<not> is_string (opt_get (opt_get rec ''data'') ''submissionId'') \<and>
             \<not> is_string (opt_get (opt_get rec ''data'') ''responseId'')"
      by (simp add: store_of_def demo_parse_numeric_record) (auto simp: ids is_string_def)
  qed
  with ids(1) str show ?thesis by simp
qed

text \<open>The body \<^verbatim>\<open>{ "data" : { } }\<close> on an empty queue.\<close>

theorem submission_pushes_serialised_at_head_witness:
  "lists (snd (POST_submission demo_env (store_of [] []) (signed spaced_body)))
     ''enrolment-submissions'' = [Str (''{'' @ quote ''data'' @ '':{}}'')] \<and>
   fst (POST_submission demo_env (store_of [] []) (signed spaced_body)) = ok_response"
proof -
  have h1: "isValidSignature demo_env (text_of (signed spaced_body))
              (received_signature (signed spaced_body))"
    by (rule demo_signed_text)
  have h2: "JSON_parse demo_env (text_of (signed spaced_body)) = Some (Obj [(''data'', Obj [])])"
    by (simp add: signed_def demo_parse_spaced)
  have h3: "up (store_of [] [])" by (simp add: store_of_def)
  have s: "stringified (Obj [(''data'', Obj [])]) = Str (''{'' @ quote ''data'' @ '':{}}'')"
    by (simp add: stringified_def)
  have d: "\<not> nullish (Obj [(''data'', Obj [])]) \<and>
           \<not> nullish (opt_get (Obj [(''data'', Obj [])]) ''data'') \<and>
           convertible (opt_get (Obj [(''data'', Obj [])]) ''eventType'') \<and>
           convertible (opt_get (opt_get (Obj [(''data'', Obj [])]) ''data'') ''formName'')"
    by (simp add: opt_get_def convertible_def)
  from submission_pushes_serialised_at_head[OF h1 h2 h3] d show ?thesis
    by (simp add: s store_of_def)
qed

text \<open>
  A queue of an unreadable item, the event \<^verbatim>\<open>e1\<close> and a third item: deleting \<^verbatim>\<open>e1\<close>
  passes over the unreadable item and removes the second one.
\<close>

theorem delete_by_eventId_witness:
  "DELETE demo_env
     (store_of [Str ''not json'', Str (json_text (Obj [(''eventId'', Str ''e1'')])), Str ''{}''] [])
     (signed (json_text (Obj [(''eventId'', Str ''e1'')]))) =
   (Inr \<lparr>status = 200, body = JsonBody (Obj [(''success'', Bool True)])\<rparr>,
    (store_of [Str ''not json'', Str (json_text (Obj [(''eventId'', Str ''e1'')])), Str ''{}''] [])
      \<lparr>lists := (lists (store_of [Str ''not json'',
                      Str (json_text (Obj [(''eventId'', Str ''e1'')])), Str ''{}''] []))
                 (''enrolment-submissions'' := [Str ''not json'', Str ''{}''])\<rparr>)"
proof -
  let ?doc = "json_text (Obj [(''eventId'', Str ''e1'')])"
  let ?items = "[Str ''not json'', Str ?doc, Str ''{}'']"
  let ?st = "store_of ?items []"
  have p: "JSON_parse demo_env ?doc = Some (Obj [(''eventId'', Str ''e1'')])"
    by (simp add: demo_env_def documents_def json_text_def spaced_body_def quote_def quote_char_def)
  have h1: "JSON_parse demo_env (text_of (signed ?doc)) = Some (Obj [(''eventId'', Str ''e1'')])"
    using p by (simp add: signed_def)
  have h2: "get (Obj [(''eventId'', Str ''e1'')]) ''eventId'' = Inr (Str ''e1'')" by simp
  have h3: "up ?st" by (simp add: store_of_def)
  have h4: "?items = lists ?st ''enrolment-submissions''" by (simp add: store_of_def)
  have m0: "\<not> entry_matches demo_env (Str ''e1'') (Str ''not json'')"
    by (simp add: entry_matches_def then_do_def demo_parse_not_json)
  have m1: "entry_matches demo_env (Str ''e1'') (Str ?doc)"
    by (simp add: entry_matches_def then_do_def p)
  have c: "truthy (Str ''e1'') \<and> convertible (Str ''e1'') \<and> 1 < length ?items \<and>
           entry_matches demo_env (Str ''e1'') (?items ! 1) \<and>
           (\<forall>j<1. \<not> entry_matches demo_env (Str ''e1'') (?items ! j))"
    using m0 m1 by (simp add: convertible_def)
  from delete_by_eventId[OF h1 h2 h3 h4, THEN conjunct2, THEN conjunct2, THEN conjunct1,
      rule_format, OF c]
  show ?thesis by simp
qed


lemma update_parts:
  "update_fields = form_fields @ empty_update # [keyless_update, new_update]"
  "update_fields = (form_fields @ [empty_update]) @ keyless_update # [new_update]"
  "update_fields = (form_fields @ [empty_update, keyless_update]) @ new_update # []"
  by (simp_all add: update_fields_def)

lemma update_labels:
  "label_of empty_update = Str ''2: Phone number''"
  "label_of keyless_update = Str ''2: Email''"
  "label_of new_update = Str ''Motto''"
  by (simp_all add: label_of_def opt_get_def empty_update_def keyless_update_def
      new_update_def field_def)

text \<open>
  The empty phone number of the second member: field 4 of the stored record keeps
  its value \<^verbatim>\<open>222\<close> and takes the key \<^verbatim>\<open>u4\<close>, in the record that is pushed.
\<close>

theorem merge_overrides_matching_field_witness:
  "\<exists>fs' final.
     record_fields final = Arr fs' \<and>
     opt_get (fs' ! 4) ''value'' = Str ''222'' \<and> opt_get (fs' ! 4) ''key'' = Str ''u4'' \<and>
     opt_get (fs' ! 4) ''label'' = Str ''2: Phone number'' \<and>
     lists (snd (POST_teams_update demo_env
        (store_of [] [Str ''not json'', Str (json_text prior_record)])
        (signed (json_text update_payload)))) ''enrolment-participants-teams'' =
       [stringified final, Str ''not json'', Str (json_text prior_record)]"
proof -
  let ?st = "store_of [] [Str ''not json'', Str (json_text prior_record)]"
  let ?l = "Str ''2: Phone number''"
  have t: "truthy (label_of empty_update)" by (simp add: update_labels)
  have h: "has_label (label_of empty_update) prior_fields"
    unfolding update_labels by code_simp
  have f4: "first_with_label ?l prior_fields 4" by code_simp
  have e1: "\<forall>v\<in>set form_fields. \<not> strict_eq (label_of v) ?l" by code_simp
  have e2: "\<forall>v\<in>set [keyless_update, new_update]. \<not> strict_eq (label_of v) ?l" by code_simp
  have v: "opt_get empty_update ''value'' = Str []" "opt_get empty_update ''key'' = Str ''u4''"
    by (simp_all add: empty_update_def field_def opt_get_def)
  have p: "opt_get (prior_fields ! 4) ''value'' = Str ''222''"
    "opt_get (prior_fields ! 4) ''label'' = Str ''2: Phone number''"
    by (simp_all add: prior_fields_def field_def opt_get_def)
  from merge_overrides_matching_field[OF update_is_authorised prior_copy prior_has_fields
      examples_present update_parts(1) t h]
  show ?thesis
  proof (elim exE conjE)
    fix i m1 fs1 m2 f' merged fs' final
    assume i: "first_with_label (label_of empty_update) prior_fields i"
      and a: "opt_get f' ''value'' =
         (if opt_get empty_update ''value'' \<in> {Null, Undefined, Str []}
          then opt_get (fs1 ! i) ''value'' else opt_get empty_update ''value'')"
        "opt_get f' ''key'' = opt_get empty_update ''key''"
        "\<forall>k. k \<notin> {''value'', ''key'', ''type'', ''options''} \<longrightarrow>
            opt_get f' k = opt_get (fs1 ! i) k"
      and b: "(\<forall>v\<in>set form_fields. \<not> strict_eq (label_of v) (label_of empty_update)) \<longrightarrow>
            fs1 ! i = prior_fields ! i"
      and c: "(\<forall>v\<in>set [keyless_update, new_update].
               \<not> strict_eq (label_of v) (label_of empty_update)) \<longrightarrow> fs' ! i = f'"
      and d: "record_fields final = Arr fs'"
        "lists (snd (POST_teams_update demo_env ?st (signed (json_text update_payload))))
           ''enrolment-participants-teams'' =
         stringified final # lists ?st ''enrolment-participants-teams''"
    from i f4 have i4: "i = 4" unfolding update_labels by (rule first_with_label_unique)
    from b e1 have b': "fs1 ! 4 = prior_fields ! 4" by (simp add: update_labels i4)
    from c e2 have c': "fs' ! 4 = f'" by (simp add: update_labels i4)
    have l: "opt_get f' ''label'' = opt_get (fs1 ! 4) ''label''"
      using a(3)[rule_format, of "''label''"] by (simp add: i4)
    show ?thesis
      apply (rule exI[of _ fs'], rule exI[of _ final])
      by (simp add: d c' a(1,2) l v p i4 b' team_store)
  qed
qed

text \<open>
  The field \<^verbatim>\<open>Motto\<close>, which the stored record does not have, is appended as it is
  and is in the record that is pushed.
\<close>

theorem merge_appends_new_label_witness:
  "\<exists>(fs1 :: js list) fs' final.
     length fs1 < length fs' \<and> fs' ! length fs1 = new_update \<and>
     record_fields final = Arr fs' \<and>
     lists (snd (POST_teams_update demo_env
        (store_of [] [Str ''not json'', Str (json_text prior_record)])
        (signed (json_text update_payload)))) ''enrolment-participants-teams'' =
       [stringified final, Str ''not json'', Str (json_text prior_record)]"
proof -
  let ?st = "store_of [] [Str ''not json'', Str (json_text prior_record)]"
  have t: "truthy (label_of new_update)" by (simp add: update_labels)
  have h: "\<not> has_label (label_of new_update) prior_fields"
    unfolding update_labels by code_simp
  have e1: "\<forall>v\<in>set (form_fields @ [empty_update, keyless_update]).
              \<not> strict_eq (label_of v) (label_of new_update)"
    unfolding update_labels by code_simp
  from merge_appends_new_label[OF update_is_authorised prior_copy prior_has_fields
      examples_present update_parts(3) t h e1]
  show ?thesis
  proof (elim exE conjE)
    fix m1 and fs1 :: "js list" and m2 merged fs' final
    assume a: "length fs1 < length fs'"
      and c: "(\<forall>v\<in>set ([] :: js list). \<not> strict_eq (label_of v) (label_of new_update)) \<longrightarrow>
            fs' ! length fs1 = new_update"
      and d: "record_fields final = Arr fs'"
        "lists (snd (POST_teams_update demo_env ?st (signed (json_text update_payload))))
           ''enrolment-participants-teams'' =
         stringified final # lists ?st ''enrolment-participants-teams''"
    from c have c': "fs' ! length fs1 = new_update" by simp
    show ?thesis
      apply (rule exI[of _ fs1], rule exI[of _ fs'], rule exI[of _ final])
      by (simp add: a c' d team_store)
  qed
qed

text \<open>
  The second member's e-mail field had the key \<^verbatim>\<open>q3\<close>; after the update without a
  key it has none, in the record that is pushed.
\<close>

theorem merge_erases_key_witness:
  "opt_get (prior_fields ! 3) ''key'' = Str ''q3'' \<and>
   (\<exists>kvs' fs' final.
      record_fields final = Arr fs' \<and> fs' ! 3 = Obj kvs' \<and>
      opt_get (Obj kvs') ''key'' = Undefined \<and>
      JSON_stringify (Obj kvs') = JSON_stringify (Obj (filter (\<lambda>p. fst p \<noteq> ''key'') kvs')) \<and>
      lists (snd (POST_teams_update demo_env
        (store_of [] [Str ''not json'', Str (json_text prior_record)])
        (signed (json_text update_payload)))) ''enrolment-participants-teams'' =
       [stringified final, Str ''not json'', Str (json_text prior_record)])"
proof -
  let ?st = "store_of [] [Str ''not json'', Str (json_text prior_record)]"
  have t: "truthy (label_of keyless_update)" by (simp add: update_labels)
  have f3: "first_with_label (label_of keyless_update) prior_fields 3"
    unfolding update_labels by code_simp
  have e: "\<forall>v\<in>set ((form_fields @ [empty_update]) @ [new_update]).
             \<not> strict_eq (label_of v) (label_of keyless_update)"
    unfolding update_labels by code_simp
  have h5: "opt_get keyless_update ''key'' = Undefined"
    by (simp add: keyless_update_def opt_get_def)
  have h6: "prior_fields ! 3 =
      Obj [(''key'', Str ''q3''), (''label'', Str ''2: Email''), (''type'', Str ''INPUT_TEXT''),
           (''value'', Str ''b@y.com'')]"
    by (simp add: prior_fields_def field_def)
  have h7: "distinct (map fst [(''key'', Str ''q3''), (''label'', Str ''2: Email''),
           (''type'', Str ''INPUT_TEXT''), (''value'', Str ''b@y.com'')])"
    by simp
  have k: "opt_get (prior_fields ! 3) ''key'' = Str ''q3''"
    by (simp add: h6 opt_get_def)
  from merge_erases_key[OF update_is_authorised prior_copy prior_has_fields
      examples_present update_parts(2) t f3 e h5 h6 h7]
  have "\<exists>kvs' fs' final.
      record_fields final = Arr fs' \<and> fs' ! 3 = Obj kvs' \<and>
      opt_get (Obj kvs') ''key'' = Undefined \<and>
      JSON_stringify (Obj kvs') = JSON_stringify (Obj (filter (\<lambda>p. fst p \<noteq> ''key'') kvs')) \<and>
      lists (snd (POST_teams_update demo_env ?st (signed (json_text update_payload))))
        ''enrolment-participants-teams'' =
       [stringified final, Str ''not json'', Str (json_text prior_record)]"
  proof (elim exE conjE)
    fix kvs' merged fs' final
    assume a: "fs' ! 3 = Obj kvs'" "opt_get (Obj kvs') ''key'' = Undefined"
        "JSON_stringify (Obj kvs') = JSON_stringify (Obj (filter (\<lambda>p. fst p \<noteq> ''key'') kvs'))"
      and d: "record_fields final = Arr fs'"
        "lists (snd (POST_teams_update demo_env ?st (signed (json_text update_payload))))
           ''enrolment-participants-teams'' =
         stringified final # lists ?st ''enrolment-participants-teams''"
    show ?thesis
      apply (rule exI[of _ kvs'], rule exI[of _ fs'], rule exI[of _ final])
      using a d by (simp add: team_store)
  qed
  with k show ?thesis by simp
qed


text \<open>
  C6 as stated (a label that the previous record does not have) fails. The label
  \<^verbatim>\<open>Motto\<close> is not in the stored record and comes twice in the update, the second
  time with an empty value: the loop appends the first field and overrides it
  with the second, which is not appended, so that the two new fields make the
  list one longer, not two; and the handler pushes the record with that list.
\<close>

theorem merge_repeated_label_counterexample:
  "\<not> has_label (label_of repeated_update) prior_fields \<and>
   truthy (label_of repeated_update) \<and>
   map_sum id record_fields (merge_loop prior_record [new_update]) =
     Inr (Arr (prior_fields @ [new_update])) \<and>
   map_sum id record_fields (merge_loop prior_record [new_update, repeated_update]) =
     Inr (Arr (prior_fields @ [field ''u7'' ''Motto'' (Str ''go'')])) \<and>
   repeated_update \<noteq> field ''u7'' ''Motto'' (Str ''go'') \<and>
   record_fields repeat_merged =
     Arr (prior_fields @ form_fields @ [field ''u7'' ''Motto'' (Str ''go'')]) \<and>
   lists (snd (POST_teams_update demo_env (store_of [] [Str (json_text prior_record)])
     (signed (json_text repeat_payload)))) ''enrolment-participants-teams'' =
     [stringified repeat_merged, Str (json_text prior_record)]"
proof (intro conjI)
  show "lists (snd (POST_teams_update demo_env (store_of [] [Str (json_text prior_record)])
     (signed (json_text repeat_payload)))) ''enrolment-participants-teams'' =
     [stringified repeat_merged, Str (json_text prior_record)]"
    by code_simp
qed code_simp+

text \<open>
  The team update has the defect of the submission handler: its log line after
  the push converts the \<^verbatim>\<open>submissionId\<close> of the payload; when that is an object with
  a \<^verbatim>\<open>toString\<close> member the answer is 500, and the merged record has been pushed.
\<close>

lemma teams_update_500_after_push:
  "status (fst (POST_teams_update demo_env (store_of [] [Str (json_text prior_record)])
      (signed (json_text unloggable_payload)))) = 500 \<and>
   length (lists (snd (POST_teams_update demo_env (store_of [] [Str (json_text prior_record)])
      (signed (json_text unloggable_payload)))) ''enrolment-participants-teams'') = 2"
  by code_simp


end
